theory Spec2Isabelle
  imports Complex_Main "HOL-Library.Word"
begin

unbundle bit_operations_syntax

section \<open>Shared constants and data\<close>

text \<open>
  The repository holds three stand-alone scripts: \<^verbatim>\<open>fb_saver_3dtext.py\<close> (bouncing
  extruded text), \<^verbatim>\<open>fb_saver_float_hostname.py\<close> (rising particles) and
  \<^verbatim>\<open>fb_saver_hostname.py\<close> (one static draw per interval). The display geometry is
  the same in all three. Python floats (clock readings, positions) are modelled as reals,
  Python ints as \<open>int\<close> or \<open>nat\<close>, and \<open>bytes\<close> as lists of 8-bit words.
\<close>

type_synonym byte = "8 word"

definition W :: nat where "W = 480"
definition H :: nat where "H = 320"
definition BPP :: nat where "BPP = 2"
definition FRAME_BYTES :: nat where "FRAME_BYTES = W * H * BPP"

text \<open>Per-script tuning constants; the suffix names the script.\<close>

definition IDLE_SEC_3d :: real where "IDLE_SEC_3d = 600"
definition FPS_3d :: real where "FPS_3d = 20"
definition EXTRUDE :: real where "EXTRUDE = 10"

definition IDLE_SEC_float :: real where "IDLE_SEC_float = 10"
definition FPS_float :: real where "FPS_float = 15"
definition NUM_PARTICLES :: nat where "NUM_PARTICLES = 10"
definition SPEED_MIN :: real where "SPEED_MIN = 12"
definition SPEED_MAX :: real where "SPEED_MAX = 40"
definition ROT_SPEED_MIN :: real where "ROT_SPEED_MIN = - 90"
definition ROT_SPEED_MAX :: real where "ROT_SPEED_MAX = 90"
definition SIZE_MIN :: int where "SIZE_MIN = 14"
definition SIZE_MAX :: int where "SIZE_MAX = 44"

definition IDLE_SEC_host :: real where "IDLE_SEC_host = 10"
definition INTERVAL :: real where "INTERVAL = 5"

text \<open>The exceptions the scripts raise or catch.\<close>

datatype py_exc = BlockingIOError | OSError | ValueError | IndexError | TypeError

text \<open>Sequencing of steps that may raise: the first exception ends the computation.\<close>

definition and_then :: "py_exc + 'a \<Rightarrow> ('a \<Rightarrow> py_exc + 'b) \<Rightarrow> py_exc + 'b" where
  "and_then m f = (case m of Inl e \<Rightarrow> Inl e | Inr v \<Rightarrow> f v)"

section \<open>Input device\<close>

text \<open>
  An evdev event carries a type, a code and a value. The event-type numbers are those of
  \<^verbatim>\<open>evdev.ecodes\<close> (the kernel's input-event-codes).
\<close>

record input_event =
  ev_type :: nat
  ev_code :: nat
  ev_value :: int

definition EV_SYN :: nat where "EV_SYN = 0"
definition EV_KEY :: nat where "EV_KEY = 1"
definition EV_REL :: nat where "EV_REL = 2"
definition EV_ABS :: nat where "EV_ABS = 3"
definition EV_MSC :: nat where "EV_MSC = 4"

text \<open>
  The touch device as the scripts see it through \<^verbatim>\<open>InputDevice.read()\<close>, which is
  library code outside the repository and therefore a parameter of the model: \<open>pending\<close> are
  the events queued in the kernel, and one \<open>read()\<close> hands over at most \<open>read_max\<close> of them
  (the library reads into a buffer of fixed size). With nothing pending a non-blocking read
  raises \<open>BlockingIOError\<close>; a device that has gone away raises \<open>OSError\<close>. The batch is
  taken off the queue by the read itself, before the caller's loop sees its first event.
\<close>

record input_dev =
  pending :: "input_event list"
  read_max :: nat

definition dev_read :: "bool \<Rightarrow> input_dev \<Rightarrow> (py_exc + input_event list) \<times> input_dev" where
  "dev_read gone d =
     (if gone then (Inl OSError, d)
      else if pending d = [] then (Inl BlockingIOError, d)
      else (Inr (take (read_max d) (pending d)),
            d\<lparr>pending := drop (read_max d) (pending d)\<rparr>))"

text \<open>Two events for concrete instances: a sync marker and a touch-down key event.\<close>

definition ev_syn :: input_event where
  "ev_syn = \<lparr>ev_type = EV_SYN, ev_code = 0, ev_value = 0\<rparr>"

definition ev_touch :: input_event where
  "ev_touch = \<lparr>ev_type = EV_KEY, ev_code = 330, ev_value = 1\<rparr>"

text \<open>
  \<^verbatim>\<open>touch_event_available\<close> of \<^verbatim>\<open>fb_saver_3dtext.py\<close> and
  \<^verbatim>\<open>fb_saver_float_hostname.py\<close>: the loop over the batch returns at the first event
  whose type is key, absolute or relative; the two exceptions it catches give \<open>False\<close>,
  any other would escape.
\<close>

fun scan_events :: "input_event list \<Rightarrow> bool" where
  "scan_events [] = False"
| "scan_events (ev # evs) =
     (if ev_type ev = EV_KEY \<or> ev_type ev = EV_ABS \<or> ev_type ev = EV_REL then True
      else scan_events evs)"

definition touch_event_available :: "bool \<Rightarrow> input_dev \<Rightarrow> (py_exc + bool) \<times> input_dev" where
  "touch_event_available gone d =
     (case dev_read gone d of
        (Inr evs, d') \<Rightarrow> (Inr (scan_events evs), d')
      | (Inl BlockingIOError, d') \<Rightarrow> (Inr False, d')
      | (Inl OSError, d') \<Rightarrow> (Inr False, d')
      | (Inl other, d') \<Rightarrow> (Inl other, d'))"

text \<open>
  \<^verbatim>\<open>touch_event_available\<close> of \<^verbatim>\<open>fb_saver_hostname.py\<close>: the loop body is
  \<^verbatim>\<open>return True\<close> for whatever event comes first.
\<close>

fun scan_events_host :: "input_event list \<Rightarrow> bool" where
  "scan_events_host [] = False"
| "scan_events_host (ev # evs) = True"

definition touch_event_available_host :: "bool \<Rightarrow> input_dev \<Rightarrow> (py_exc + bool) \<times> input_dev" where
  "touch_event_available_host gone d =
     (case dev_read gone d of
        (Inr evs, d') \<Rightarrow> (Inr (scan_events_host evs), d')
      | (Inl BlockingIOError, d') \<Rightarrow> (Inr False, d')
      | (Inl OSError, d') \<Rightarrow> (Inr False, d')
      | (Inl other, d') \<Rightarrow> (Inl other, d'))"

section \<open>Framebuffer device\<close>

text \<open>
  \<^verbatim>\<open>/dev/fb0\<close> is a byte array of fixed size. Every call opens it afresh; the log
  records each open and what it transferred, so that ``no I/O'' is the statement that the
  log did not grow. A call whose \<open>fails\<close> flag is set meets an I/O error at the open. A read
  returns the bytes the device holds, up to the count asked for; a write stores the buffer
  from offset 0 and cannot grow the device (\<open>fb_store\<close>). \<^verbatim>\<open>fb_read\<close> is the same
  function in the three scripts.
\<close>

datatype fb_op = FbRead | FbWrite "byte list" | FbFailed

record fbdev =
  content :: "byte list"
  oplog :: "fb_op list"

definition fb_store :: "byte list \<Rightarrow> byte list \<Rightarrow> byte list" where
  "fb_store buf old = take (length old) buf @ drop (length buf) old"

definition fb_read :: "bool \<Rightarrow> fbdev \<Rightarrow> (py_exc + byte list) \<times> fbdev" where
  "fb_read fails d =
     (if fails then (Inl OSError, d\<lparr>oplog := oplog d @ [FbFailed]\<rparr>)
      else
        let buf = take FRAME_BYTES (content d);
            buf = (if length buf < FRAME_BYTES
                   then buf @ replicate (FRAME_BYTES - length buf) 0 else buf)
        in (Inr buf, d\<lparr>oplog := oplog d @ [FbRead]\<rparr>))"

text \<open>What a successful \<^verbatim>\<open>fb_read\<close> returns for a device holding \<open>bs\<close>.\<close>

definition padded :: "byte list \<Rightarrow> byte list" where
  "padded bs = take FRAME_BYTES bs @ replicate (FRAME_BYTES - length bs) 0"

text \<open>\<^verbatim>\<open>fb_write\<close> of the 3D-text and the particle script: the length is checked first.\<close>

definition fb_write :: "bool \<Rightarrow> byte list \<Rightarrow> fbdev \<Rightarrow> (py_exc + unit) \<times> fbdev" where
  "fb_write fails buf d =
     (if length buf \<noteq> FRAME_BYTES then (Inl ValueError, d)
      else if fails then (Inl OSError, d\<lparr>oplog := oplog d @ [FbFailed]\<rparr>)
      else (Inr (), d\<lparr>content := fb_store buf (content d), oplog := oplog d @ [FbWrite buf]\<rparr>))"

text \<open>\<^verbatim>\<open>fb_write\<close> of \<^verbatim>\<open>fb_saver_hostname.py\<close>: open and write, nothing else.\<close>

definition fb_write_host :: "bool \<Rightarrow> byte list \<Rightarrow> fbdev \<Rightarrow> (py_exc + unit) \<times> fbdev" where
  "fb_write_host fails buf d =
     (if fails then (Inl OSError, d\<lparr>oplog := oplog d @ [FbFailed]\<rparr>)
      else (Inr (), d\<lparr>content := fb_store buf (content d), oplog := oplog d @ [FbWrite buf]\<rparr>))"

section \<open>Pixel converter\<close>

text \<open>
  An RGB image stores three bytes per pixel; \<^verbatim>\<open>px[x, y]\<close> raises \<open>IndexError\<close>
  outside the image. The arithmetic on a pixel is done on Python ints. The 3D-text and the
  particle script share \<^verbatim>\<open>rgb888_to_rgb565_bytes\<close> line for line.
\<close>

type_synonym pixel = "byte \<times> byte \<times> byte"

record image =
  img_w :: nat
  img_h :: nat
  img_px :: "nat \<Rightarrow> nat \<Rightarrow> pixel"

definition getpixel :: "image \<Rightarrow> nat \<Rightarrow> nat \<Rightarrow> py_exc + pixel" where
  "getpixel img x y =
     (if x < img_w img \<and> y < img_h img then Inr (img_px img x y) else Inl IndexError)"

definition pack565 :: "pixel \<Rightarrow> int" where
  "pack565 p = (case p of (r, g, b) \<Rightarrow>
     push_bit 8 (uint r AND 0xF8) OR push_bit 3 (uint g AND 0xFC) OR drop_bit 3 (uint b))"

definition put_pixel :: "byte list \<Rightarrow> nat \<Rightarrow> pixel \<Rightarrow> py_exc + byte list" where
  "put_pixel out i p =
     (let v = pack565 p in
      if i + 1 < length out
      then Inr (out[i := word_of_int (v AND 0xFF), i + 1 := word_of_int (drop_bit 8 v AND 0xFF)])
      else Inl IndexError)"

fun convert_row :: "image \<Rightarrow> nat \<Rightarrow> nat list \<Rightarrow> byte list \<times> nat \<Rightarrow> py_exc + byte list \<times> nat" where
  "convert_row img y [] st = Inr st"
| "convert_row img y (x # xs) (out, i) =
     (case getpixel img x y of
        Inl e \<Rightarrow> Inl e
      | Inr p \<Rightarrow>
          (case put_pixel out i p of
             Inl e \<Rightarrow> Inl e
           | Inr out' \<Rightarrow> convert_row img y xs (out', i + 2)))"

fun convert_rows :: "image \<Rightarrow> nat \<Rightarrow> nat list \<Rightarrow> byte list \<times> nat \<Rightarrow> py_exc + byte list \<times> nat" where
  "convert_rows img w [] st = Inr st"
| "convert_rows img w (y # ys) st =
     (case convert_row img y [0..<w] st of
        Inl e \<Rightarrow> Inl e
      | Inr st' \<Rightarrow> convert_rows img w ys st')"

definition rgb888_to_rgb565_bytes :: "image \<Rightarrow> py_exc + byte list" where
  "rgb888_to_rgb565_bytes img_rgb =
     (case convert_rows img_rgb W [0..<H] (replicate FRAME_BYTES 0, 0) of
        Inl e \<Rightarrow> Inl e
      | Inr (out, i) \<Rightarrow> Inr out)"

text \<open>The converter of \<^verbatim>\<open>fb_saver_hostname.py\<close> has the same body under another name.\<close>

definition rgb888_to_rgb565 :: "image \<Rightarrow> py_exc + byte list" where
  "rgb888_to_rgb565 img =
     (case convert_rows img W [0..<H] (replicate FRAME_BYTES 0, 0) of
        Inl e \<Rightarrow> Inl e
      | Inr (out, i) \<Rightarrow> Inr out)"

text \<open>
  Reference functions for stating what the converter computes: the two bytes of one pixel,
  the bytes of a row and of the whole frame in scan order, and a pixel with its low bits
  cleared.
\<close>

definition pixel_bytes :: "pixel \<Rightarrow> byte list" where
  "pixel_bytes p =
     [word_of_int (pack565 p AND 0xFF), word_of_int (drop_bit 8 (pack565 p) AND 0xFF)]"

definition row_bytes :: "image \<Rightarrow> nat \<Rightarrow> nat \<Rightarrow> byte list" where
  "row_bytes img w y = concat (map (\<lambda>x. pixel_bytes (img_px img x y)) [0..<w])"

definition frame_bytes :: "image \<Rightarrow> byte list" where
  "frame_bytes img = concat (map (row_bytes img W) [0..<H])"

definition mask888 :: "pixel \<Rightarrow> pixel" where
  "mask888 p = (case p of (r, g, b) \<Rightarrow> (r AND 0xF8, g AND 0xFC, b AND 0xF8))"

text \<open>An image of the display's size with every pixel the same, for concrete instances.\<close>

definition flat_image :: "pixel \<Rightarrow> image" where
  "flat_image p = \<lparr>img_w = W, img_h = H, img_px = (\<lambda>x y. p)\<rparr>"

section \<open>Engine state and one tick of the main loop\<close>

text \<open>
  The variables every \<^verbatim>\<open>main\<close> keeps across iterations of \<^verbatim>\<open>while True\<close>; each
  script extends them with its scene. \<open>saver_on\<close> is the engine state (\<open>False\<close> is Awake).
\<close>

record engine =
  last_activity :: real
  saver_on :: bool
  saved :: "byte list option"

record paced = engine +
  next_frame :: real

record world =
  fb :: fbdev
  dev :: input_dev

text \<open>
  What the environment contributes to one iteration: the events that reached the queue
  since the last poll, the two readings of \<^verbatim>\<open>time.monotonic()\<close> (\<open>t_act\<close> stamps the
  activity, \<open>t_now\<close> is \<^verbatim>\<open>now\<close>; \<open>t_rest\<close> is the particle script's extra reading after a
  restore and \<open>wall\<close> its \<^verbatim>\<open>time.time()\<close>), and which device accesses fail.
\<close>

record tick_in =
  arrivals :: "input_event list"
  dev_gone :: bool
  t_act :: real
  t_rest :: real
  t_now :: real
  wall :: real
  restore_fails :: bool
  capture_fails :: bool
  render_fails :: bool

definition poll_dev :: "tick_in \<Rightarrow> world \<Rightarrow> input_dev" where
  "poll_dev inp w = (dev w)\<lparr>pending := pending (dev w) @ arrivals inp\<rparr>"

subsection \<open>The bouncing 3D text (\<^verbatim>\<open>fb_saver_3dtext.py\<close>)\<close>

text \<open>\<open>pos_x\<close>, \<open>pos_y\<close>, \<open>vel_x\<close>, \<open>vel_y\<close> are the script's \<open>x\<close>, \<open>y\<close>, \<open>vx\<close>, \<open>vy\<close>.\<close>

record saver3d = paced +
  pos_x :: real
  pos_y :: real
  vel_x :: real
  vel_y :: real
  t0 :: real

definition init3d :: "real \<Rightarrow> real \<Rightarrow> saver3d" where
  "init3d t_start t_zero =
     \<lparr>last_activity = t_start, saver_on = False, saved = None, next_frame = 0,
      pos_x = 40, pos_y = 80, vel_x = 26 / 10, vel_y = 19 / 10, t0 = t_zero\<rparr>"

definition margin :: real where
  "margin = 12 + EXTRUDE"

text \<open>The position update of lines 179 to 194; \<open>tw\<close> and \<open>th\<close> are the measured text size.\<close>

definition bounce :: "real \<Rightarrow> real \<Rightarrow> saver3d \<Rightarrow> saver3d" where
  "bounce tw th s =
     (let x = pos_x s + vel_x s;
          y = pos_y s + vel_y s;
          vx = vel_x s;
          vy = vel_y s;
          (x, vx) = (if x < margin then (margin, \<bar>vx\<bar>) else (x, vx));
          (y, vy) = (if y < margin then (margin, \<bar>vy\<bar>) else (y, vy));
          (x, vx) = (if x + tw > real W - margin then (real W - margin - tw, - \<bar>vx\<bar>) else (x, vx));
          (y, vy) = (if y + th > real H - margin then (real H - margin - th, - \<bar>vy\<bar>) else (y, vy))
      in s\<lparr>pos_x := x, pos_y := y, vel_x := vx, vel_y := vy\<rparr>)"


text \<open>
  Drawing the glyphs is the imaging library's work: \<open>draw t x y\<close> stands for the composited
  image after \<^verbatim>\<open>convert("RGB")\<close>.
\<close>

definition render_3d_text_frame :: "(real \<Rightarrow> real \<Rightarrow> real \<Rightarrow> image) \<Rightarrow> real \<Rightarrow> real \<Rightarrow> real \<Rightarrow> py_exc + byte list" where
  "render_3d_text_frame draw t x y = rgb888_to_rgb565_bytes (draw t x y)"

text \<open>Whether the poll at the head of the iteration reports activity.\<close>

definition touched :: "tick_in \<Rightarrow> world \<Rightarrow> bool" where
  "touched inp w = (fst (touch_event_available (dev_gone inp) (poll_dev inp w)) = Inr True)"

text \<open>Lines 157 to 166: activity, and the restore under \<^verbatim>\<open>try/except Exception: pass\<close>.\<close>

definition on_touch3d :: "tick_in \<Rightarrow> saver3d \<times> world \<Rightarrow> py_exc + saver3d \<times> world" where
  "on_touch3d inp sw =
     (case sw of (s, w) \<Rightarrow>
       (case touch_event_available (dev_gone inp) (poll_dev inp w) of
          (Inl e, d') \<Rightarrow> Inl e
        | (Inr False, d') \<Rightarrow> Inr (s, w\<lparr>dev := d'\<rparr>)
        | (Inr True, d') \<Rightarrow>
            (let s = s\<lparr>last_activity := t_act inp\<rparr>; w = w\<lparr>dev := d'\<rparr> in
             if saver_on s then
               (let w = (case saved s of
                           None \<Rightarrow> w
                         | Some buf \<Rightarrow> w\<lparr>fb := snd (fb_write (restore_fails inp) buf (fb w))\<rparr>)
                in Inr (s\<lparr>saver_on := False, saved := None\<rparr>, w))
             else Inr (s, w))))"

text \<open>Lines 168 to 174: the idle check and the capture.\<close>

definition on_idle3d :: "tick_in \<Rightarrow> saver3d \<times> world \<Rightarrow> py_exc + saver3d \<times> world" where
  "on_idle3d inp sw =
     (case sw of (s, w) \<Rightarrow>
       (let now = t_now inp in
        if \<not> saver_on s \<and> now - last_activity s > IDLE_SEC_3d then
          (case fb_read (capture_fails inp) (fb w) of
             (Inl e, f') \<Rightarrow> Inl e
           | (Inr buf, f') \<Rightarrow>
               Inr (s\<lparr>saved := Some buf, saver_on := True, t0 := now, next_frame := 0\<rparr>,
                    w\<lparr>fb := f'\<rparr>))
        else Inr (s, w)))"

text \<open>Lines 176 to 200: a frame when one is due.\<close>

definition on_render3d :: "(real \<Rightarrow> real \<Rightarrow> real \<Rightarrow> image) \<Rightarrow> real \<Rightarrow> real \<Rightarrow> tick_in \<Rightarrow> saver3d \<times> world \<Rightarrow> py_exc + saver3d \<times> world" where
  "on_render3d draw tw th inp sw =
     (case sw of (s, w) \<Rightarrow>
       (let now = t_now inp in
        if saver_on s \<and> now \<ge> next_frame s then
          (let s = bounce tw th s;
               t = now - t0 s
           in case render_3d_text_frame draw t (pos_x s) (pos_y s) of
                Inl e \<Rightarrow> Inl e
              | Inr frame \<Rightarrow>
                  (case fb_write (render_fails inp) frame (fb w) of
                     (Inl e, f') \<Rightarrow> Inl e
                   | (Inr u, f') \<Rightarrow>
                       Inr (s\<lparr>next_frame := now + 1 / max FPS_3d 1\<rparr>, w\<lparr>fb := f'\<rparr>)))
        else Inr (s, w)))"

definition tick3d :: "(real \<Rightarrow> real \<Rightarrow> real \<Rightarrow> image) \<Rightarrow> real \<Rightarrow> real \<Rightarrow> tick_in \<Rightarrow> saver3d \<times> world \<Rightarrow> py_exc + saver3d \<times> world" where
  "tick3d draw tw th inp sw =
     and_then (and_then (on_touch3d inp sw) (on_idle3d inp)) (on_render3d draw tw th inp)"

text \<open>The loop over a finite prefix of the environment's inputs; an exception ends it.\<close>

fun run3d :: "(real \<Rightarrow> real \<Rightarrow> real \<Rightarrow> image) \<Rightarrow> real \<Rightarrow> real \<Rightarrow> tick_in list \<Rightarrow> saver3d \<times> world \<Rightarrow> py_exc + saver3d \<times> world" where
  "run3d draw tw th [] sw = Inr sw"
| "run3d draw tw th (inp # ins) sw = and_then (tick3d draw tw th inp sw) (run3d draw tw th ins)"

text \<open>A run in which no iteration sees activity.\<close>

fun quiet_run3d :: "(real \<Rightarrow> real \<Rightarrow> real \<Rightarrow> image) \<Rightarrow> real \<Rightarrow> real \<Rightarrow> tick_in list \<Rightarrow> saver3d \<times> world \<Rightarrow> bool" where
  "quiet_run3d draw tw th [] sw = True"
| "quiet_run3d draw tw th (inp # ins) sw =
     (\<not> touched inp (snd sw) \<and>
      (case tick3d draw tw th inp sw of
         Inl e \<Rightarrow> True
       | Inr sw' \<Rightarrow> quiet_run3d draw tw th ins sw'))"

subsection \<open>The rising particles (\<^verbatim>\<open>fb_saver_float_hostname.py\<close>)\<close>

record particle =
  p_text :: string
  p_x :: real
  p_y :: real
  p_vy :: real
  p_angle :: real
  p_omega :: real
  p_size :: int
  p_hue_offset :: real

text \<open>
  The \<^verbatim>\<open>random\<close> module is a parameter: \<open>unit_draw k\<close> is what the \<open>k\<close>-th call returns
  when it is \<^verbatim>\<open>random()\<close>, \<open>int_draw k a b\<close> when it is \<^verbatim>\<open>randint(a, b)\<close>, and \<open>drawn\<close>
  counts the calls made so far. \<^verbatim>\<open>uniform(a, b)\<close> is \<open>a + (b - a) * random()\<close>.
\<close>

record rng =
  unit_draw :: "nat \<Rightarrow> real"
  int_draw :: "nat \<Rightarrow> int \<Rightarrow> int \<Rightarrow> int"
  drawn :: nat

definition uniform :: "real \<Rightarrow> real \<Rightarrow> rng \<Rightarrow> real \<times> rng" where
  "uniform a b g = (a + (b - a) * unit_draw g (drawn g), g\<lparr>drawn := Suc (drawn g)\<rparr>)"

definition randint :: "int \<Rightarrow> int \<Rightarrow> rng \<Rightarrow> int \<times> rng" where
  "randint a b g = (int_draw g (drawn g) a b, g\<lparr>drawn := Suc (drawn g)\<rparr>)"

definition new_particle :: "string \<Rightarrow> rng \<Rightarrow> particle \<times> rng" where
  "new_particle hostname g =
     (let (x, g) = uniform 0 (real W) g;
          (y, g) = uniform (real H) (real H + 200) g;
          (vy, g) = uniform SPEED_MIN SPEED_MAX g;
          (angle, g) = uniform 0 360 g;
          (omega, g) = uniform ROT_SPEED_MIN ROT_SPEED_MAX g;
          (size, g) = randint SIZE_MIN SIZE_MAX g;
          (hue_offset, g) = uniform 0 360 g
      in (\<lparr>p_text = hostname, p_x = x, p_y = y, p_vy = vy, p_angle = angle,
           p_omega = omega, p_size = size, p_hue_offset = hue_offset\<rparr>, g))"

text \<open>\<^verbatim>\<open>[new_particle() for _ in range(n)]\<close>\<close>

fun new_particles :: "string \<Rightarrow> nat \<Rightarrow> rng \<Rightarrow> particle list \<times> rng" where
  "new_particles hostname 0 g = ([], g)"
| "new_particles hostname (Suc n) g =
     (let (p, g) = new_particle hostname g;
          (ps, g) = new_particles hostname n g
      in (p # ps, g))"

text \<open>Python's \<^verbatim>\<open>%\<close> on floats takes the sign of the divisor.\<close>

definition py_mod :: "real \<Rightarrow> real \<Rightarrow> real" where
  "py_mod a m = a - m * of_int \<lfloor>a / m\<rfloor>"

text \<open>The update loop at the head of \<^verbatim>\<open>render_frame\<close>.\<close>

fun update_particles :: "string \<Rightarrow> real \<Rightarrow> particle list \<Rightarrow> rng \<Rightarrow> particle list \<times> rng" where
  "update_particles hostname dt [] g = ([], g)"
| "update_particles hostname dt (p # ps) g =
     (let p = p\<lparr>p_y := p_y p - p_vy p * dt\<rparr>;
          p = p\<lparr>p_angle := py_mod (p_angle p + p_omega p * dt) 360\<rparr>;
          (p, g) = (if p_y p < - 260 then new_particle hostname g else (p, g));
          (ps, g) = update_particles hostname dt ps g
      in (p # ps, g))"

text \<open>
  \<open>draw ps hue_clock\<close> stands for the composited image of the particles \<open>ps\<close> when
  \<^verbatim>\<open>time.time()\<close> returns \<open>hue_clock\<close> (the global hue). The particles are updated in
  place before anything is drawn.
\<close>

definition render_frame :: "string \<Rightarrow> (particle list \<Rightarrow> real \<Rightarrow> image) \<Rightarrow> real \<Rightarrow> particle list \<Rightarrow> real \<Rightarrow> rng \<Rightarrow> (py_exc + byte list) \<times> particle list \<times> rng" where
  "render_frame hostname draw hue_clock ps dt g =
     (let (ps, g) = update_particles hostname dt ps g
      in (rgb888_to_rgb565_bytes (draw ps hue_clock), ps, g))"

record saver_float = paced +
  particles :: "particle list"
  last_t :: real

definition init_float :: "string \<Rightarrow> real \<Rightarrow> real \<Rightarrow> rng \<Rightarrow> saver_float \<times> rng" where
  "init_float hostname t_start t_last g =
     (let (ps, g) = new_particles hostname NUM_PARTICLES g
      in (\<lparr>last_activity = t_start, saver_on = False, saved = None, next_frame = 0,
           particles = ps, last_t = t_last\<rparr>, g))"

text \<open>Lines 248 to 259.\<close>

definition on_touch_float :: "tick_in \<Rightarrow> saver_float \<times> world \<times> rng \<Rightarrow> py_exc + saver_float \<times> world \<times> rng" where
  "on_touch_float inp swg =
     (case swg of (s, w, g) \<Rightarrow>
       (case touch_event_available (dev_gone inp) (poll_dev inp w) of
          (Inl e, d') \<Rightarrow> Inl e
        | (Inr False, d') \<Rightarrow> Inr (s, w\<lparr>dev := d'\<rparr>, g)
        | (Inr True, d') \<Rightarrow>
            (let s = s\<lparr>last_activity := t_act inp\<rparr>; w = w\<lparr>dev := d'\<rparr> in
             if saver_on s then
               (let w = (case saved s of
                           None \<Rightarrow> w
                         | Some buf \<Rightarrow> w\<lparr>fb := snd (fb_write (restore_fails inp) buf (fb w))\<rparr>)
                in Inr (s\<lparr>saver_on := False, saved := None,
                          last_t := t_rest inp, next_frame := 0\<rparr>, w, g))
             else Inr (s, w, g))))"

text \<open>Lines 261 to 268.\<close>

definition on_idle_float :: "string \<Rightarrow> tick_in \<Rightarrow> saver_float \<times> world \<times> rng \<Rightarrow> py_exc + saver_float \<times> world \<times> rng" where
  "on_idle_float hostname inp swg =
     (case swg of (s, w, g) \<Rightarrow>
       (let now = t_now inp in
        if \<not> saver_on s \<and> now - last_activity s > IDLE_SEC_float then
          (case fb_read (capture_fails inp) (fb w) of
             (Inl e, f') \<Rightarrow> Inl e
           | (Inr buf, f') \<Rightarrow>
               (let (ps, g) = new_particles hostname NUM_PARTICLES g
                in Inr (s\<lparr>saved := Some buf, saver_on := True, particles := ps,
                          last_t := now, next_frame := 0\<rparr>,
                        w\<lparr>fb := f'\<rparr>, g)))
        else Inr (s, w, g)))"

text \<open>Lines 270 to 276.\<close>

definition on_render_float :: "string \<Rightarrow> (particle list \<Rightarrow> real \<Rightarrow> image) \<Rightarrow> tick_in \<Rightarrow> saver_float \<times> world \<times> rng \<Rightarrow> py_exc + saver_float \<times> world \<times> rng" where
  "on_render_float hostname draw inp swg =
     (case swg of (s, w, g) \<Rightarrow>
       (let now = t_now inp in
        if saver_on s \<and> now \<ge> next_frame s then
          (let dt = max (1 / 1000) (now - last_t s);
               s = s\<lparr>last_t := now\<rparr>
           in case render_frame hostname draw (wall inp) (particles s) dt g of
                (Inl e, ps, g) \<Rightarrow> Inl e
              | (Inr frame, ps, g) \<Rightarrow>
                  (case fb_write (render_fails inp) frame (fb w) of
                     (Inl e, f') \<Rightarrow> Inl e
                   | (Inr u, f') \<Rightarrow>
                       Inr (s\<lparr>particles := ps, next_frame := now + 1 / max FPS_float 1\<rparr>,
                            w\<lparr>fb := f'\<rparr>, g)))
        else Inr (s, w, g)))"

definition tick_float :: "string \<Rightarrow> (particle list \<Rightarrow> real \<Rightarrow> image) \<Rightarrow> tick_in \<Rightarrow> saver_float \<times> world \<times> rng \<Rightarrow> py_exc + saver_float \<times> world \<times> rng" where
  "tick_float hostname draw inp swg =
     and_then (and_then (on_touch_float inp swg) (on_idle_float hostname inp))
       (on_render_float hostname draw inp)"

fun run_float :: "string \<Rightarrow> (particle list \<Rightarrow> real \<Rightarrow> image) \<Rightarrow> tick_in list \<Rightarrow> saver_float \<times> world \<times> rng \<Rightarrow> py_exc + saver_float \<times> world \<times> rng" where
  "run_float hostname draw [] swg = Inr swg"
| "run_float hostname draw (inp # ins) swg =
     and_then (tick_float hostname draw inp swg) (run_float hostname draw ins)"

fun quiet_run_float :: "string \<Rightarrow> (particle list \<Rightarrow> real \<Rightarrow> image) \<Rightarrow> tick_in list \<Rightarrow> saver_float \<times> world \<times> rng \<Rightarrow> bool" where
  "quiet_run_float hostname draw [] swg = True"
| "quiet_run_float hostname draw (inp # ins) swg =
     (\<not> touched inp (fst (snd swg)) \<and>
      (case tick_float hostname draw inp swg of
         Inl e \<Rightarrow> True
       | Inr swg' \<Rightarrow> quiet_run_float hostname draw ins swg'))"

subsection \<open>The static hostname (\<^verbatim>\<open>fb_saver_hostname.py\<close>)\<close>

record saver_host = engine +
  next_draw :: real

definition init_host :: "real \<Rightarrow> saver_host" where
  "init_host t_start = \<lparr>last_activity = t_start, saver_on = False, saved = None, next_draw = 0\<rparr>"

definition touched_host :: "tick_in \<Rightarrow> world \<Rightarrow> bool" where
  "touched_host inp w =
     (fst (touch_event_available_host (dev_gone inp) (poll_dev inp w)) = Inr True)"

text \<open>
  Lines 112 to 117: the restore is a bare \<^verbatim>\<open>fb_write(saved)\<close>. Were \<open>saved\<close> still
  \<^verbatim>\<open>None\<close>, the open would come first and writing \<^verbatim>\<open>None\<close> to the opened file would
  raise \<open>TypeError\<close>.
\<close>

definition on_touch_host :: "tick_in \<Rightarrow> saver_host \<times> world \<times> rng \<Rightarrow> py_exc + saver_host \<times> world \<times> rng" where
  "on_touch_host inp swg =
     (case swg of (s, w, g) \<Rightarrow>
       (case touch_event_available_host (dev_gone inp) (poll_dev inp w) of
          (Inl e, d') \<Rightarrow> Inl e
        | (Inr False, d') \<Rightarrow> Inr (s, w\<lparr>dev := d'\<rparr>, g)
        | (Inr True, d') \<Rightarrow>
            (let s = s\<lparr>last_activity := t_act inp\<rparr>; w = w\<lparr>dev := d'\<rparr> in
             if saver_on s then
               (case saved s of
                  None \<Rightarrow> (if restore_fails inp then Inl OSError else Inl TypeError)
                | Some buf \<Rightarrow>
                    (case fb_write_host (restore_fails inp) buf (fb w) of
                       (Inl e, f') \<Rightarrow> Inl e
                     | (Inr u, f') \<Rightarrow>
                         Inr (s\<lparr>saver_on := False, saved := None\<rparr>, w\<lparr>fb := f'\<rparr>, g)))
             else Inr (s, w, g))))"

text \<open>Lines 119 to 124.\<close>

definition on_idle_host :: "tick_in \<Rightarrow> saver_host \<times> world \<times> rng \<Rightarrow> py_exc + saver_host \<times> world \<times> rng" where
  "on_idle_host inp swg =
     (case swg of (s, w, g) \<Rightarrow>
       (let now = t_now inp in
        if \<not> saver_on s \<and> now - last_activity s > IDLE_SEC_host then
          (case fb_read (capture_fails inp) (fb w) of
             (Inl e, f') \<Rightarrow> Inl e
           | (Inr buf, f') \<Rightarrow>
               Inr (s\<lparr>saved := Some buf, saver_on := True, next_draw := 0\<rparr>, w\<lparr>fb := f'\<rparr>, g))
        else Inr (s, w, g)))"

text \<open>
  Lines 126 to 140: \<open>draw x y\<close> stands for the image with the hostname drawn at \<open>(x, y)\<close>,
  \<open>tw\<close> and \<open>th\<close> for the measured text box.
\<close>

definition on_render_host :: "(int \<Rightarrow> int \<Rightarrow> image) \<Rightarrow> int \<Rightarrow> int \<Rightarrow> tick_in \<Rightarrow> saver_host \<times> world \<times> rng \<Rightarrow> py_exc + saver_host \<times> world \<times> rng" where
  "on_render_host draw tw th inp swg =
     (case swg of (s, w, g) \<Rightarrow>
       (let now = t_now inp in
        if saver_on s \<and> now \<ge> next_draw s then
          (let (x, g) = randint 0 (max 0 (int W - tw)) g;
               (y, g) = randint 0 (max 0 (int H - th)) g
           in case rgb888_to_rgb565 (draw x y) of
                Inl e \<Rightarrow> Inl e
              | Inr frame \<Rightarrow>
                  (case fb_write_host (render_fails inp) frame (fb w) of
                     (Inl e, f') \<Rightarrow> Inl e
                   | (Inr u, f') \<Rightarrow> Inr (s\<lparr>next_draw := now + INTERVAL\<rparr>, w\<lparr>fb := f'\<rparr>, g)))
        else Inr (s, w, g)))"

definition tick_host :: "(int \<Rightarrow> int \<Rightarrow> image) \<Rightarrow> int \<Rightarrow> int \<Rightarrow> tick_in \<Rightarrow> saver_host \<times> world \<times> rng \<Rightarrow> py_exc + saver_host \<times> world \<times> rng" where
  "tick_host draw tw th inp swg =
     and_then (and_then (on_touch_host inp swg) (on_idle_host inp)) (on_render_host draw tw th inp)"

fun run_host :: "(int \<Rightarrow> int \<Rightarrow> image) \<Rightarrow> int \<Rightarrow> int \<Rightarrow> tick_in list \<Rightarrow> saver_host \<times> world \<times> rng \<Rightarrow> py_exc + saver_host \<times> world \<times> rng" where
  "run_host draw tw th [] swg = Inr swg"
| "run_host draw tw th (inp # ins) swg =
     and_then (tick_host draw tw th inp swg) (run_host draw tw th ins)"

fun quiet_run_host :: "(int \<Rightarrow> int \<Rightarrow> image) \<Rightarrow> int \<Rightarrow> int \<Rightarrow> tick_in list \<Rightarrow> saver_host \<times> world \<times> rng \<Rightarrow> bool" where
  "quiet_run_host draw tw th [] swg = True"
| "quiet_run_host draw tw th (inp # ins) swg =
     (\<not> touched_host inp (fst (snd swg)) \<and>
      (case tick_host draw tw th inp swg of
         Inl e \<Rightarrow> True
       | Inr swg' \<Rightarrow> quiet_run_host draw tw th ins swg'))"

section \<open>Concrete instances\<close>

text \<open>
  A framebuffer showing a uniform desktop, an input device with an empty queue, inputs for
  an iteration at time \<open>t\<close> without and with a touch, and drawing functions that paint a
  uniform image.
\<close>

definition desk :: "byte list" where
  "desk = replicate FRAME_BYTES 7"

definition world0 :: world where
  "world0 = \<lparr>fb = \<lparr>content = desk, oplog = []\<rparr>, dev = \<lparr>pending = [], read_max = 64\<rparr>\<rparr>"

definition quiet_in :: "real \<Rightarrow> tick_in" where
  "quiet_in t = \<lparr>arrivals = [], dev_gone = False, t_act = t, t_rest = t, t_now = t, wall = 0,
     restore_fails = False, capture_fails = False, render_fails = False\<rparr>"

definition touch_in :: "real \<Rightarrow> tick_in" where
  "touch_in t = (quiet_in t)\<lparr>arrivals := [ev_touch, ev_syn]\<rparr>"

definition draw_grey :: "real \<Rightarrow> real \<Rightarrow> real \<Rightarrow> image" where
  "draw_grey t x y = flat_image (235, 235, 235)"

definition draw_grey_host :: "int \<Rightarrow> int \<Rightarrow> image" where
  "draw_grey_host x y = flat_image (200, 200, 200)"

definition draw_grey_float :: "particle list \<Rightarrow> real \<Rightarrow> image" where
  "draw_grey_float ps c = flat_image (242, 12, 12)"

definition rng0 :: rng where
  "rng0 = \<lparr>unit_draw = (\<lambda>k. 1 / 2), int_draw = (\<lambda>k a b. a), drawn = 0\<rparr>"

text \<open>Each script's state with the saver on and the desktop saved, and a failing restore.\<close>

definition on3d :: saver3d where
  "on3d = (init3d 0 0)\<lparr>saver_on := True, saved := Some desk\<rparr>"

definition on_float :: saver_float where
  "on_float = \<lparr>last_activity = 0, saver_on = True, saved = Some desk, next_frame = 0,
     particles = [], last_t = 0\<rparr>"

definition on_host :: saver_host where
  "on_host = (init_host 0)\<lparr>saver_on := True, saved := Some desk\<rparr>"

definition touch_fail_in :: "real \<Rightarrow> tick_in" where
  "touch_fail_in t = (touch_in t)\<lparr>restore_fails := True\<rparr>"

text \<open>
  An iteration that sees a touch, stamps it at 1000 and then reads \<open>now\<close> as 1700: the
  process did not run for 700 seconds between the two clock readings.
\<close>

definition stall_in :: tick_in where
  "stall_in = (touch_in 1000)\<lparr>t_now := 1700\<rparr>"

definition grey_frame :: "byte list" where
  "grey_frame = frame_bytes (flat_image (235, 235, 235))"

text \<open>
  States and worlds of a concrete run of the 3D-text script from \<open>init3d 0 0\<close> and \<open>world0\<close>
  with a text box of 300 by 100: after the first frame of a session entered at 601, after
  its second frame at 602, after a touch at 700, and after the first frame of the next
  session entered at 1301; and a state whose sprite is beyond the right and top margins.
\<close>

definition s_first :: saver3d where
  "s_first = \<lparr>last_activity = 0, saver_on = True, saved = Some desk, next_frame = 601 + 1 / 20,
     pos_x = 426 / 10, pos_y = 819 / 10, vel_x = 26 / 10, vel_y = 19 / 10, t0 = 601\<rparr>"

definition w_first :: world where
  "w_first = \<lparr>fb = \<lparr>content = grey_frame, oplog = [FbRead, FbWrite grey_frame]\<rparr>,
     dev = \<lparr>pending = [], read_max = 64\<rparr>\<rparr>"

definition s_second :: saver3d where
  "s_second = \<lparr>last_activity = 0, saver_on = True, saved = Some desk, next_frame = 602 + 1 / 20,
     pos_x = 452 / 10, pos_y = 838 / 10, vel_x = 26 / 10, vel_y = 19 / 10, t0 = 601\<rparr>"

definition w_second :: world where
  "w_second = \<lparr>fb = \<lparr>content = grey_frame,
       oplog = [FbRead, FbWrite grey_frame, FbWrite grey_frame]\<rparr>,
     dev = \<lparr>pending = [], read_max = 64\<rparr>\<rparr>"


definition s_awake :: saver3d where
  "s_awake = \<lparr>last_activity = 700, saver_on = False, saved = None, next_frame = 601 + 1 / 20,
     pos_x = 426 / 10, pos_y = 819 / 10, vel_x = 26 / 10, vel_y = 19 / 10, t0 = 601\<rparr>"

definition w_awake :: world where
  "w_awake = \<lparr>fb = \<lparr>content = desk, oplog = [FbRead, FbWrite grey_frame, FbWrite desk]\<rparr>,
     dev = \<lparr>pending = [], read_max = 64\<rparr>\<rparr>"

definition s_again :: saver3d where
  "s_again = \<lparr>last_activity = 700, saver_on = True, saved = Some desk, next_frame = 1301 + 1 / 20,
     pos_x = 452 / 10, pos_y = 838 / 10, vel_x = 26 / 10, vel_y = 19 / 10, t0 = 1301\<rparr>"

definition w_again :: world where
  "w_again = \<lparr>fb = \<lparr>content = grey_frame,
       oplog = [FbRead, FbWrite grey_frame, FbWrite desk, FbRead, FbWrite grey_frame]\<rparr>,
     dev = \<lparr>pending = [], read_max = 64\<rparr>\<rparr>"

text \<open>An Awake state of the particle script and a particle left over from an earlier session.\<close>

definition float_awake :: saver_float where
  "float_awake = \<lparr>last_activity = 0, saver_on = False, saved = None, next_frame = 7,
     particles = [], last_t = 3\<rparr>"

definition old_particle :: particle where
  "old_particle = \<lparr>p_text = ''pi'', p_x = 1, p_y = 2, p_vy = 3, p_angle = 4, p_omega = 5,
     p_size = 20, p_hue_offset = 6\<rparr>"

section \<open>Lemmas about the embedding\<close>

subsection \<open>Packing one pixel\<close>

lemma int_and_shifted_mask:
  "(k::int) AND push_bit m (mask n) = push_bit m (take_bit n (drop_bit m k))"
  by (rule bit_eqI) (auto simp: bit_simps)

lemma int_and_F8: "(k::int) AND 0xF8 = push_bit 3 (take_bit 5 (drop_bit 3 k))"
  using int_and_shifted_mask [of k 3 5] by (simp add: mask_eq_exp_minus_1 push_bit_eq_mult)

lemma int_and_FC: "(k::int) AND 0xFC = push_bit 2 (take_bit 6 (drop_bit 2 k))"
  using int_and_shifted_mask [of k 2 6] by (simp add: mask_eq_exp_minus_1 push_bit_eq_mult)

lemma uint_byte_hi5: "take_bit 5 (drop_bit 3 (uint (r::byte))) = drop_bit 3 (uint r)"
  by (rule bit_eqI) (auto simp: bit_simps dest: bit_imp_le_length)

lemma uint_byte_hi6: "take_bit 6 (drop_bit 2 (uint (g::byte))) = drop_bit 2 (uint g)"
  by (rule bit_eqI) (auto simp: bit_simps dest: bit_imp_le_length)

lemma pack565_fields:
  "pack565 (r, g, b) =
     push_bit 11 (drop_bit 3 (uint r)) OR push_bit 5 (drop_bit 2 (uint g)) OR drop_bit 3 (uint b)"
  by (simp add: pack565_def int_and_F8 int_and_FC uint_byte_hi5 uint_byte_hi6 push_bit_push_bit
      del: push_bit_and)

lemma pack565_arith:
  "pack565 (r, g, b) = 2048 * (uint r div 8) + 32 * (uint g div 4) + uint b div 8"
proof -
  let ?R = "push_bit 11 (drop_bit 3 (uint r))"
  let ?G = "push_bit 5 (drop_bit 2 (uint g))"
  let ?B = "drop_bit 3 (uint b)"
  have gb: "?G + ?B = ?G OR ?B"
    by (rule disjunctive_add) (auto simp: bit_simps dest: bit_imp_le_length)
  have rgb: "?R + (?G OR ?B) = ?R OR (?G OR ?B)"
    by (rule disjunctive_add) (auto simp: bit_simps dest: bit_imp_le_length)
  have "pack565 (r, g, b) = ?R + (?G + ?B)"
    by (simp add: pack565_fields gb rgb or.assoc)
  then show ?thesis
    by (simp add: push_bit_eq_mult drop_bit_eq_div)
qed

lemma uint_byte_bounds: "0 \<le> uint (r::byte)" "uint (r::byte) < 256"
  using uint_bounded [of r] by simp_all

lemma pack565_range: "0 \<le> pack565 (r, g, b)" "pack565 (r, g, b) < 65536"
proof -
  have "uint r div 8 \<le> 31" "uint g div 4 \<le> 63" "uint b div 8 \<le> 31"
    "0 \<le> uint r div 8" "0 \<le> uint g div 4" "0 \<le> uint b div 8"
    using uint_byte_bounds [of r] uint_byte_bounds [of g] uint_byte_bounds [of b] by (simp_all add: pos_imp_zdiv_nonneg_iff)
  then show "0 \<le> pack565 (r, g, b)" "pack565 (r, g, b) < 65536"
    by (simp_all add: pack565_arith)
qed

lemma int_and_FF: "(k::int) AND 0xFF = k mod 256"
  using take_bit_eq_mask [of 8 k] by (simp add: take_bit_eq_mod mask_eq_exp_minus_1)

lemma pixel_bytes_arith:
  "pixel_bytes (r, g, b) =
     [word_of_int (pack565 (r, g, b) mod 256), word_of_int (pack565 (r, g, b) div 256)]"
proof -
  have "drop_bit 8 (pack565 (r, g, b)) mod 256 = pack565 (r, g, b) div 256"
    using pack565_range [of r g b] by (simp add: drop_bit_eq_div)
  then show ?thesis by (simp add: pixel_bytes_def int_and_FF drop_bit_eq_div)
qed

lemma pack565_mask888: "pack565 (mask888 p) = pack565 p"
proof (cases p)
  case (fields r g b)
  have "drop_bit 3 (uint (b AND 0xF8)) = drop_bit 3 (uint b)"
    by (rule bit_eqI) (auto simp: bit_simps uint_and int_and_F8 dest: bit_imp_le_length)
  then show ?thesis
    by (simp add: fields mask888_def pack565_def uint_and and.assoc)
qed

subsection \<open>The loops of the converter\<close>

lemma length_pixel_bytes: "length (pixel_bytes p) = 2"
  by (simp add: pixel_bytes_def)

lemma put_pixel_splice:
  assumes "i + 2 \<le> length out"
  shows "put_pixel out i p = Inr (take i out @ pixel_bytes p @ drop (i + 2) out)"
proof -
  have idx: "Suc (Suc (k - 2)) = k" if "i \<noteq> k" "Suc i \<noteq> k" "\<not> k < i" for k
    using that by arith
  have "out[i := a, Suc i := b] = take i out @ [a, b] @ drop (i + 2) out" for a b
    using assms by (auto simp: list_eq_iff_nth_eq nth_append nth_list_update less_Suc_eq idx)
  with assms show ?thesis
    by (simp add: put_pixel_def pixel_bytes_def Let_def)
qed

lemma Inr_pair_cong: "a = a' \<Longrightarrow> b = b' \<Longrightarrow> Inr (a, b) = Inr (a', b')"
  by simp

lemma convert_row_splice:
  assumes "\<forall>x \<in> set xs. x < img_w img" and "y < img_h img"
    and "i + 2 * length xs \<le> length out"
  shows "convert_row img y xs (out, i) =
     Inr (take i out @ concat (map (\<lambda>x. pixel_bytes (img_px img x y)) xs)
            @ drop (i + 2 * length xs) out, i + 2 * length xs)"
  using assms
proof (induction xs arbitrary: out i)
  case Nil
  then show ?case by simp
next
  case (Cons x xs)
  let ?p = "pixel_bytes (img_px img x y)"
  let ?C = "concat (map (\<lambda>x. pixel_bytes (img_px img x y)) xs)"
  let ?out' = "take i out @ ?p @ drop (i + 2) out"
  have fit: "i + 2 \<le> length out"
    using Cons.prems by simp
  have px: "getpixel img x y = Inr (img_px img x y)"
    using Cons.prems by (simp add: getpixel_def)
  have put: "put_pixel out i (img_px img x y) = Inr ?out'"
    using fit by (rule put_pixel_splice)
  have len: "length ?out' = length out"
    using fit by (simp add: length_pixel_bytes)
  have t: "take (i + 2) ?out' = take i out @ ?p"
    using fit by (simp add: length_pixel_bytes)
  have d: "drop (i + 2 + 2 * length xs) ?out' = drop (i + 2 * length (x # xs)) out"
    using fit by (simp add: length_pixel_bytes add.commute)
  have "convert_row img y (x # xs) (out, i) = convert_row img y xs (?out', i + 2)"
    by (simp only: convert_row.simps px put sum.case)
  also have "\<dots> = Inr (take (i + 2) ?out' @ ?C @ drop (i + 2 + 2 * length xs) ?out',
      i + 2 + 2 * length xs)"
    using Cons.prems len by (intro Cons.IH) simp_all
  also have "\<dots> = Inr (take i out @ concat (map (\<lambda>x. pixel_bytes (img_px img x y)) (x # xs))
      @ drop (i + 2 * length (x # xs)) out, i + 2 * length (x # xs))"
  proof (rule Inr_pair_cong)
    show "take (i + 2) ?out' @ ?C @ drop (i + 2 + 2 * length xs) ?out' =
      take i out @ concat (map (\<lambda>x. pixel_bytes (img_px img x y)) (x # xs))
        @ drop (i + 2 * length (x # xs)) out"
      by (simp only: t d list.map concat.simps append_assoc)
    show "i + 2 + 2 * length xs = i + 2 * length (x # xs)"
      by simp
  qed
  finally show ?case .
qed

lemma length_row_bytes: "length (row_bytes img w y) = 2 * w"
  by (simp add: row_bytes_def length_concat comp_def length_pixel_bytes sum_list_triv)

lemma convert_rows_splice:
  assumes "\<forall>y \<in> set ys. y < img_h img" and "w \<le> img_w img"
    and "i + 2 * w * length ys \<le> length out"
  shows "convert_rows img w ys (out, i) =
     Inr (take i out @ concat (map (row_bytes img w) ys)
            @ drop (i + 2 * w * length ys) out, i + 2 * w * length ys)"
  using assms
proof (induction ys arbitrary: out i)
  case Nil
  then show ?case by simp
next
  case (Cons y ys)
  let ?r = "row_bytes img w y"
  let ?C = "concat (map (row_bytes img w) ys)"
  let ?out' = "take i out @ ?r @ drop (i + 2 * w) out"
  have fit: "i + 2 * w \<le> length out"
    using Cons.prems by simp
  have row: "convert_row img y [0..<w] (out, i) = Inr (?out', i + 2 * w)"
    using Cons.prems fit convert_row_splice [of "[0..<w]" img y i out]
    by (simp add: row_bytes_def)
  have len: "length ?out' = length out"
    using fit by (simp add: length_row_bytes)
  have t: "take (i + 2 * w) ?out' = take i out @ ?r"
    using fit by (simp add: length_row_bytes)
  have d: "drop (i + 2 * w + 2 * w * length ys) ?out' = drop (i + 2 * w * length (y # ys)) out"
    using fit by (simp add: length_row_bytes add.commute algebra_simps)
  have "convert_rows img w (y # ys) (out, i) = convert_rows img w ys (?out', i + 2 * w)"
    by (simp only: convert_rows.simps row sum.case)
  also have "\<dots> = Inr (take (i + 2 * w) ?out' @ ?C @ drop (i + 2 * w + 2 * w * length ys) ?out',
      i + 2 * w + 2 * w * length ys)"
    using Cons.prems len by (intro Cons.IH) (simp_all add: algebra_simps)
  also have "\<dots> = Inr (take i out @ concat (map (row_bytes img w) (y # ys))
      @ drop (i + 2 * w * length (y # ys)) out, i + 2 * w * length (y # ys))"
  proof (rule Inr_pair_cong)
    show "take (i + 2 * w) ?out' @ ?C @ drop (i + 2 * w + 2 * w * length ys) ?out' =
      take i out @ concat (map (row_bytes img w) (y # ys)) @ drop (i + 2 * w * length (y # ys)) out"
      by (simp only: t d list.map concat.simps append_assoc)
    show "i + 2 * w + 2 * w * length ys = i + 2 * w * length (y # ys)"
      by (simp add: algebra_simps)
  qed
  finally show ?case .
qed

lemma length_frame_bytes: "length (frame_bytes img) = FRAME_BYTES"
  by (simp add: frame_bytes_def length_concat comp_def length_row_bytes sum_list_triv
      FRAME_BYTES_def BPP_def algebra_simps)

lemma convert_frame:
  assumes "W \<le> img_w img" and "H \<le> img_h img"
  shows "convert_rows img W [0..<H] (replicate FRAME_BYTES 0, 0) = Inr (frame_bytes img, FRAME_BYTES)"
proof -
  have "convert_rows img W [0..<H] (replicate FRAME_BYTES 0, 0) =
     Inr (take 0 (replicate FRAME_BYTES 0) @ concat (map (row_bytes img W) [0..<H])
            @ drop (0 + 2 * W * length [0..<H]) (replicate FRAME_BYTES 0), 0 + 2 * W * length [0..<H])"
    using assms by (intro convert_rows_splice) (simp_all add: FRAME_BYTES_def BPP_def algebra_simps)
  then show ?thesis
    by (simp add: frame_bytes_def FRAME_BYTES_def BPP_def algebra_simps)
qed

lemma rgb888_to_rgb565_bytes_frame:
  "W \<le> img_w img \<Longrightarrow> H \<le> img_h img \<Longrightarrow> rgb888_to_rgb565_bytes img = Inr (frame_bytes img)"
  by (simp add: rgb888_to_rgb565_bytes_def convert_frame)

lemma rgb888_to_rgb565_frame:
  "W \<le> img_w img \<Longrightarrow> H \<le> img_h img \<Longrightarrow> rgb888_to_rgb565 img = Inr (frame_bytes img)"
  by (simp add: rgb888_to_rgb565_def convert_frame)

lemma nth_concat_uniform:
  assumes "\<forall>b \<in> set bs. length b = n" and "k < length bs" and "j < n"
  shows "concat bs ! (k * n + j) = bs ! k ! j"
  using assms
proof (induction bs arbitrary: k)
  case Nil
  then show ?case by simp
next
  case (Cons b bs)
  show ?case
  proof (cases k)
    case 0
    with Cons.prems show ?thesis by (simp add: nth_append)
  next
    case (Suc k')
    with Cons.prems have "concat bs ! (k' * n + j) = bs ! k' ! j"
      by (intro Cons.IH) simp_all
    with Cons.prems Suc show ?thesis by (simp add: nth_append add.assoc)
  qed
qed

lemma frame_bytes_nth:
  assumes "x < W" and "y < H" and "j < 2"
  shows "frame_bytes img ! (2 * (y * W + x) + j) = pixel_bytes (img_px img x y) ! j"
proof -
  have "frame_bytes img ! (y * (2 * W) + (2 * x + j)) = map (row_bytes img W) [0..<H] ! y ! (2 * x + j)"
    unfolding frame_bytes_def using assms
    by (intro nth_concat_uniform) (auto simp: length_row_bytes)
  also have "\<dots> = row_bytes img W y ! (x * 2 + j)"
    using assms by (simp add: mult.commute)
  also have "\<dots> = map (\<lambda>x. pixel_bytes (img_px img x y)) [0..<W] ! x ! j"
    unfolding row_bytes_def using assms
    by (intro nth_concat_uniform) (auto simp: length_pixel_bytes)
  also have "\<dots> = pixel_bytes (img_px img x y) ! j"
    using assms by simp
  finally show ?thesis by (simp add: algebra_simps)
qed

lemma pixel_bytes_mask888: "mask888 p = mask888 q \<Longrightarrow> pixel_bytes p = pixel_bytes q"
  using pack565_mask888 [of p] pack565_mask888 [of q] by (simp add: pixel_bytes_def)

lemma frame_bytes_cong:
  assumes "\<forall>x<W. \<forall>y<H. mask888 (img_px a x y) = mask888 (img_px b x y)"
  shows "frame_bytes a = frame_bytes b"
proof -
  have "row_bytes a W y = row_bytes b W y" if "y < H" for y
    unfolding row_bytes_def using assms that
    by (intro arg_cong [where f = concat] map_cong refl pixel_bytes_mask888) simp
  then show ?thesis
    unfolding frame_bytes_def by (intro arg_cong [where f = concat] map_cong refl) simp
qed

subsection \<open>Polling the input device\<close>

lemma scan_events_iff:
  "scan_events evs \<longleftrightarrow>
     (\<exists>ev \<in> set evs. ev_type ev = EV_KEY \<or> ev_type ev = EV_ABS \<or> ev_type ev = EV_REL)"
  by (induction evs) auto

lemma scan_events_host_iff: "scan_events_host evs \<longleftrightarrow> evs \<noteq> []"
  by (cases evs) simp_all

lemma touch_event_available_eq:
  "touch_event_available gone d =
     (Inr (\<not> gone \<and> scan_events (take (read_max d) (pending d))),
      if gone then d else d\<lparr>pending := drop (read_max d) (pending d)\<rparr>)"
  by (simp add: touch_event_available_def dev_read_def)

lemma touch_event_available_host_eq:
  "touch_event_available_host gone d =
     (Inr (\<not> gone \<and> scan_events_host (take (read_max d) (pending d))),
      if gone then d else d\<lparr>pending := drop (read_max d) (pending d)\<rparr>)"
  by (simp add: touch_event_available_host_def dev_read_def)

subsection \<open>Framebuffer reads and writes\<close>

lemma length_padded: "length (padded bs) = FRAME_BYTES"
  by (simp add: padded_def)

lemma padded_full: "length bs = FRAME_BYTES \<Longrightarrow> padded bs = bs"
  by (simp add: padded_def)

lemma fb_read_ok:
  "fb_read False d = (Inr (padded (content d)), d\<lparr>oplog := oplog d @ [FbRead]\<rparr>)"
  by (auto simp: fb_read_def padded_def Let_def)

lemma fb_read_fails:
  "fb_read True d = (Inl OSError, d\<lparr>oplog := oplog d @ [FbFailed]\<rparr>)"
  by (simp add: fb_read_def)

lemma length_fb_store: "length (fb_store buf old) = length old"
  by (simp add: fb_store_def)

lemma fb_store_full: "length buf = length old \<Longrightarrow> fb_store buf old = buf"
  by (simp add: fb_store_def)

lemma fb_write_content_length: "length (content (snd (fb_write fails buf d))) = length (content d)"
  by (simp add: fb_write_def length_fb_store)

subsection \<open>The steps of one iteration\<close>

lemma touched_iff:
  "touched inp w \<longleftrightarrow>
     \<not> dev_gone inp \<and> scan_events (take (read_max (dev w)) (pending (dev w) @ arrivals inp))"
  by (simp add: touched_def touch_event_available_eq poll_dev_def)

lemma touched_host_iff:
  "touched_host inp w \<longleftrightarrow>
     \<not> dev_gone inp \<and> scan_events_host (take (read_max (dev w)) (pending (dev w) @ arrivals inp))"
  by (simp add: touched_host_def touch_event_available_host_eq poll_dev_def)

lemma on_touch3d_quiet:
  "\<not> touched inp w \<Longrightarrow>
   on_touch3d inp (s, w) =
     Inr (s, w\<lparr>dev := snd (touch_event_available (dev_gone inp) (poll_dev inp w))\<rparr>)"
  by (auto simp: on_touch3d_def touched_def touch_event_available_eq)

lemma on_touch3d_touched:
  "touched inp w \<Longrightarrow>
   on_touch3d inp (s, w) =
     Inr (if saver_on s
          then (s\<lparr>last_activity := t_act inp, saver_on := False, saved := None\<rparr>,
                w\<lparr>dev := snd (touch_event_available (dev_gone inp) (poll_dev inp w)),
                  fb := (case saved s of None \<Rightarrow> fb w
                         | Some buf \<Rightarrow> snd (fb_write (restore_fails inp) buf (fb w)))\<rparr>)
          else (s\<lparr>last_activity := t_act inp\<rparr>,
                w\<lparr>dev := snd (touch_event_available (dev_gone inp) (poll_dev inp w))\<rparr>))"
  by (auto simp: on_touch3d_def touched_def touch_event_available_eq Let_def split: option.splits)

lemma on_idle3d_stays:
  "saver_on s \<or> t_now inp - last_activity s \<le> IDLE_SEC_3d \<Longrightarrow> on_idle3d inp (s, w) = Inr (s, w)"
  by (auto simp: on_idle3d_def Let_def)

lemma on_idle3d_fires:
  "\<not> saver_on s \<Longrightarrow> t_now inp - last_activity s > IDLE_SEC_3d \<Longrightarrow>
   on_idle3d inp (s, w) =
     (if capture_fails inp then Inl OSError
      else Inr (s\<lparr>saved := Some (padded (content (fb w))), saver_on := True,
                  t0 := t_now inp, next_frame := 0\<rparr>,
                w\<lparr>fb := (fb w)\<lparr>oplog := oplog (fb w) @ [FbRead]\<rparr>\<rparr>))"
  by (simp add: on_idle3d_def Let_def fb_read_ok fb_read_fails)

lemma on_render3d_off: "\<not> saver_on s \<Longrightarrow> on_render3d draw tw th inp (s, w) = Inr (s, w)"
  by (simp add: on_render3d_def Let_def)

lemma on_render3d_keeps:
  assumes "on_render3d draw tw th inp (s, w) = Inr (s', w')"
  shows "saver_on s' = saver_on s" and "saved s' = saved s" and "last_activity s' = last_activity s"
    and "dev w' = dev w" and "length (content (fb w')) = length (content (fb w))"
  using assms
  by (auto simp: on_render3d_def Let_def bounce_def fb_write_def length_fb_store
      split: if_splits sum.splits prod.splits)

lemma on_touch_float_quiet:
  "\<not> touched inp w \<Longrightarrow>
   on_touch_float inp (s, w, g) =
     Inr (s, w\<lparr>dev := snd (touch_event_available (dev_gone inp) (poll_dev inp w))\<rparr>, g)"
  by (auto simp: on_touch_float_def touched_def touch_event_available_eq)

lemma on_touch_float_touched:
  "touched inp w \<Longrightarrow>
   on_touch_float inp (s, w, g) =
     Inr (if saver_on s
          then (s\<lparr>last_activity := t_act inp, saver_on := False, saved := None,
                   last_t := t_rest inp, next_frame := 0\<rparr>,
                w\<lparr>dev := snd (touch_event_available (dev_gone inp) (poll_dev inp w)),
                  fb := (case saved s of None \<Rightarrow> fb w
                         | Some buf \<Rightarrow> snd (fb_write (restore_fails inp) buf (fb w)))\<rparr>, g)
          else (s\<lparr>last_activity := t_act inp\<rparr>,
                w\<lparr>dev := snd (touch_event_available (dev_gone inp) (poll_dev inp w))\<rparr>, g))"
  by (auto simp: on_touch_float_def touched_def touch_event_available_eq Let_def
      split: option.splits)

lemma on_touch_host_quiet:
  "\<not> touched_host inp w \<Longrightarrow>
   on_touch_host inp (s, w, g) =
     Inr (s, w\<lparr>dev := snd (touch_event_available_host (dev_gone inp) (poll_dev inp w))\<rparr>, g)"
  by (auto simp: on_touch_host_def touched_host_def touch_event_available_host_eq)

lemma on_touch_host_awake:
  "touched_host inp w \<Longrightarrow> \<not> saver_on s \<Longrightarrow>
   on_touch_host inp (s, w, g) =
     Inr (s\<lparr>last_activity := t_act inp\<rparr>,
          w\<lparr>dev := snd (touch_event_available_host (dev_gone inp) (poll_dev inp w))\<rparr>, g)"
  by (auto simp: on_touch_host_def touched_host_def touch_event_available_host_eq Let_def)

lemma on_touch_host_restore:
  "touched_host inp w \<Longrightarrow> saver_on s \<Longrightarrow> saved s = Some buf \<Longrightarrow>
   on_touch_host inp (s, w, g) =
     (if restore_fails inp then Inl OSError
      else Inr (s\<lparr>last_activity := t_act inp, saver_on := False, saved := None\<rparr>,
                w\<lparr>dev := snd (touch_event_available_host (dev_gone inp) (poll_dev inp w)),
                  fb := (fb w)\<lparr>content := fb_store buf (content (fb w)),
                                 oplog := oplog (fb w) @ [FbWrite buf]\<rparr>\<rparr>, g))"
  by (auto simp: on_touch_host_def touched_host_def touch_event_available_host_eq Let_def
      fb_write_host_def)

lemma on_idle_host_stays:
  "saver_on s \<or> t_now inp - last_activity s \<le> IDLE_SEC_host \<Longrightarrow>
   on_idle_host inp (s, w, g) = Inr (s, w, g)"
  by (auto simp: on_idle_host_def Let_def)

lemma on_idle_host_fires:
  "\<not> saver_on s \<Longrightarrow> t_now inp - last_activity s > IDLE_SEC_host \<Longrightarrow>
   on_idle_host inp (s, w, g) =
     (if capture_fails inp then Inl OSError
      else Inr (s\<lparr>saved := Some (padded (content (fb w))), saver_on := True, next_draw := 0\<rparr>,
                w\<lparr>fb := (fb w)\<lparr>oplog := oplog (fb w) @ [FbRead]\<rparr>\<rparr>, g))"
  by (simp add: on_idle_host_def Let_def fb_read_ok fb_read_fails)

lemma on_render_host_off:
  "\<not> saver_on s \<Longrightarrow> on_render_host draw tw th inp (s, w, g) = Inr (s, w, g)"
  by (simp add: on_render_host_def Let_def)

lemma on_render_host_keeps:
  assumes "on_render_host draw tw th inp (s, w, g) = Inr (s', w', g')"
  shows "saver_on s' = saver_on s" and "saved s' = saved s" and "last_activity s' = last_activity s"
  using assms
  by (auto simp: on_render_host_def Let_def split: if_splits sum.splits prod.splits)

lemma on_idle_float_stays:
  "saver_on s \<or> t_now inp - last_activity s \<le> IDLE_SEC_float \<Longrightarrow>
   on_idle_float hostname inp (s, w, g) = Inr (s, w, g)"
  by (auto simp: on_idle_float_def Let_def)

lemma on_idle_float_fires:
  "\<not> saver_on s \<Longrightarrow> t_now inp - last_activity s > IDLE_SEC_float \<Longrightarrow>
   on_idle_float hostname inp (s, w, g) =
     (if capture_fails inp then Inl OSError
      else Inr (s\<lparr>saved := Some (padded (content (fb w))), saver_on := True,
                  particles := fst (new_particles hostname NUM_PARTICLES g),
                  last_t := t_now inp, next_frame := 0\<rparr>,
                w\<lparr>fb := (fb w)\<lparr>oplog := oplog (fb w) @ [FbRead]\<rparr>\<rparr>,
                snd (new_particles hostname NUM_PARTICLES g)))"
  by (simp add: on_idle_float_def Let_def fb_read_ok fb_read_fails split_beta)

lemma touched_touch_in: "touched (touch_in t) world0" "touched (touch_fail_in t) world0"
  "touched_host (touch_in t) world0" "touched_host (touch_fail_in t) world0"
  by (simp_all add: touched_iff touched_host_iff touch_fail_in_def touch_in_def quiet_in_def
      world0_def ev_touch_def ev_syn_def EV_KEY_def)

lemma not_touched_quiet_in: "\<not> touched (quiet_in t) world0" "\<not> touched_host (quiet_in t) world0"
  by (simp_all add: touched_iff touched_host_iff quiet_in_def world0_def)

lemma render_3d_text_frame_ok:
  "W \<le> img_w (draw t x y) \<Longrightarrow> H \<le> img_h (draw t x y) \<Longrightarrow>
   render_3d_text_frame draw t x y = Inr (frame_bytes (draw t x y))"
  by (simp add: render_3d_text_frame_def rgb888_to_rgb565_bytes_frame)

lemma fb_write_ok:
  "length buf = FRAME_BYTES \<Longrightarrow>
   fb_write False buf d =
     (Inr (), d\<lparr>content := fb_store buf (content d), oplog := oplog d @ [FbWrite buf]\<rparr>)"
  by (simp add: fb_write_def)

lemma tick3d_touched:
  assumes "touched inp w" and "t_now inp - t_act inp \<le> IDLE_SEC_3d"
  shows "tick3d draw tw th inp (s, w) = on_touch3d inp (s, w)"
proof -
  obtain s' w' where r: "on_touch3d inp (s, w) = Inr (s', w')"
      and s': "\<not> saver_on s'" "last_activity s' = t_act inp"
    using assms(1) by (cases "saver_on s") (simp_all add: on_touch3d_touched)
  have "on_idle3d inp (s', w') = Inr (s', w')"
    using s' assms(2) by (simp add: on_idle3d_stays)
  moreover have "on_render3d draw tw th inp (s', w') = Inr (s', w')"
    using s' by (simp add: on_render3d_off)
  ultimately show ?thesis
    by (simp add: tick3d_def and_then_def r)
qed

lemma length_desk: "length desk = FRAME_BYTES"
  by (simp add: desk_def)

lemma length_grey_frame: "length grey_frame = FRAME_BYTES"
  by (simp add: grey_frame_def length_frame_bytes)

lemma draw_grey_frame: "render_3d_text_frame draw_grey t x y = Inr grey_frame"
  by (simp add: render_3d_text_frame_ok draw_grey_def flat_image_def grey_frame_def)

lemma touched_stall_in: "touched stall_in world0"
  by (simp add: touched_iff stall_in_def touch_in_def quiet_in_def world0_def ev_touch_def
      EV_KEY_def)

subsection \<open>Whole iterations from the Awake state\<close>

lemma and_then_Inr: "and_then (Inr v) f = f v"
  by (simp add: and_then_def)

lemma and_then_eq_Inr:
  "and_then m f = Inr r \<longleftrightarrow> (\<exists>v. m = Inr v \<and> f v = Inr r)"
  by (cases m) (simp_all add: and_then_def)

lemma tick3d_awake:
  assumes "\<not> saver_on s"
  shows "tick3d draw tw th inp (s, w) =
     and_then (on_idle3d inp
         (s\<lparr>last_activity := (if touched inp w then t_act inp else last_activity s)\<rparr>,
          w\<lparr>dev := snd (touch_event_available (dev_gone inp) (poll_dev inp w))\<rparr>))
       (on_render3d draw tw th inp)"
  using assms
  by (cases "touched inp w") (simp_all add: tick3d_def on_touch3d_touched on_touch3d_quiet and_then_Inr)

lemma tick_host_awake:
  assumes "\<not> saver_on s"
  shows "tick_host draw tw th inp (s, w, g) =
     and_then (on_idle_host inp
         (s\<lparr>last_activity := (if touched_host inp w then t_act inp else last_activity s)\<rparr>,
          w\<lparr>dev := snd (touch_event_available_host (dev_gone inp) (poll_dev inp w))\<rparr>, g))
       (on_render_host draw tw th inp)"
  using assms
  by (cases "touched_host inp w")
    (simp_all add: tick_host_def on_touch_host_awake on_touch_host_quiet and_then_Inr)

lemma on_idle3d_saver_on_iff:
  assumes "\<not> saver_on s" and "on_idle3d inp (s, w) = Inr (s', w')"
  shows "saver_on s' \<longleftrightarrow> t_now inp - last_activity s > IDLE_SEC_3d"
proof (cases "t_now inp - last_activity s > IDLE_SEC_3d")
  case True
  with assms show ?thesis by (auto simp: on_idle3d_fires split: if_splits)
next
  case False
  with assms show ?thesis by (auto simp: on_idle3d_stays)
qed

lemma on_idle_host_saver_on_iff:
  assumes "\<not> saver_on s" and "on_idle_host inp (s, w, g) = Inr (s', w', g')"
  shows "saver_on s' \<longleftrightarrow> t_now inp - last_activity s > IDLE_SEC_host"
proof (cases "t_now inp - last_activity s > IDLE_SEC_host")
  case True
  with assms show ?thesis by (auto simp: on_idle_host_fires split: if_splits)
next
  case False
  with assms show ?thesis by (auto simp: on_idle_host_stays)
qed





subsection \<open>The bouncing text\<close>


lemma bounce_keeps_engine:
  "saver_on (bounce tw th s) = saver_on s" "saved (bounce tw th s) = saved s"
  "last_activity (bounce tw th s) = last_activity s" "t0 (bounce tw th s) = t0 s"
  "next_frame (bounce tw th s) = next_frame s"
  by (simp_all add: bounce_def Let_def split_beta)








subsection \<open>What a run without activity preserves\<close>

lemma fb_write_tail:
  "drop FRAME_BYTES (content (snd (fb_write fails buf d))) = drop FRAME_BYTES (content d)"
  by (cases "FRAME_BYTES \<le> length (content d)") (auto simp: fb_write_def fb_store_def min_def)

lemma on_render3d_tail:
  assumes "on_render3d draw tw th inp (s, w) = Inr (s', w')"
  shows "drop FRAME_BYTES (content (fb w')) = drop FRAME_BYTES (content (fb w))"
proof (cases "saver_on s \<and> t_now inp \<ge> next_frame s")
  case False
  with assms show ?thesis by (auto simp: on_render3d_def Let_def)
next
  case True
  with assms obtain frame f' where
    "fb_write (render_fails inp) frame (fb w) = (Inr (), f')" and "w' = w\<lparr>fb := f'\<rparr>"
    by (auto simp: on_render3d_def Let_def split: sum.splits prod.splits)
  then show ?thesis
    using fb_write_tail [of "render_fails inp" frame "fb w"] by simp
qed

text \<open>An iteration without activity while the saver is on: only the render step acts.\<close>

lemma tick3d_quiet_on:
  assumes "\<not> touched inp w" and "saver_on s"
  shows "tick3d draw tw th inp (s, w) =
     on_render3d draw tw th inp
       (s, w\<lparr>dev := snd (touch_event_available (dev_gone inp) (poll_dev inp w))\<rparr>)"
  using assms by (simp add: tick3d_def on_touch3d_quiet on_idle3d_stays and_then_Inr)

lemma tick3d_quiet_on_keeps:
  assumes "\<not> touched inp w" and "saver_on s" and "tick3d draw tw th inp (s, w) = Inr (s', w')"
  shows "saver_on s'" and "saved s' = saved s"
    and "length (content (fb w')) = length (content (fb w))"
    and "drop FRAME_BYTES (content (fb w')) = drop FRAME_BYTES (content (fb w))"
proof -
  let ?w1 = "w\<lparr>dev := snd (touch_event_available (dev_gone inp) (poll_dev inp w))\<rparr>"
  have r: "on_render3d draw tw th inp (s, ?w1) = Inr (s', w')"
    using assms by (simp add: tick3d_quiet_on)
  show "saver_on s'" using on_render3d_keeps(1) [OF r] assms(2) by simp
  show "saved s' = saved s" using on_render3d_keeps(2) [OF r] by simp
  show "length (content (fb w')) = length (content (fb w))"
    using on_render3d_keeps(5) [OF r] by simp
  show "drop FRAME_BYTES (content (fb w')) = drop FRAME_BYTES (content (fb w))"
    using on_render3d_tail [OF r] by simp
qed

lemma quiet_run3d_keeps:
  assumes "quiet_run3d draw tw th ins (s, w)" and "saver_on s"
    and "run3d draw tw th ins (s, w) = Inr (s', w')"
  shows "saver_on s' \<and> saved s' = saved s
    \<and> length (content (fb w')) = length (content (fb w))
    \<and> drop FRAME_BYTES (content (fb w')) = drop FRAME_BYTES (content (fb w))"
  using assms
proof (induction ins arbitrary: s w)
  case Nil
  then show ?case by simp
next
  case (Cons inp ins)
  from Cons.prems(3) obtain s1 w1 where t: "tick3d draw tw th inp (s, w) = Inr (s1, w1)"
      and r: "run3d draw tw th ins (s1, w1) = Inr (s', w')"
    by (auto simp: and_then_eq_Inr)
  from Cons.prems(1) t have q: "\<not> touched inp w" and qr: "quiet_run3d draw tw th ins (s1, w1)"
    by simp_all
  note k = tick3d_quiet_on_keeps [OF q Cons.prems(2) t]
  from Cons.IH [OF qr k(1) r] k show ?case by simp
qed

text \<open>An iteration from Awake that ends with the saver on has captured the framebuffer.\<close>

lemma tick3d_capture:
  assumes "\<not> saver_on s" and "tick3d draw tw th inp (s, w) = Inr (s', w')" and "saver_on s'"
  shows "saved s' = Some (padded (content (fb w)))"
    and "length (content (fb w')) = length (content (fb w))"
    and "drop FRAME_BYTES (content (fb w')) = drop FRAME_BYTES (content (fb w))"
proof -
  let ?s1 = "s\<lparr>last_activity := (if touched inp w then t_act inp else last_activity s)\<rparr>"
  let ?w1 = "w\<lparr>dev := snd (touch_event_available (dev_gone inp) (poll_dev inp w))\<rparr>"
  from assms(1,2) obtain s2 w2 where i: "on_idle3d inp (?s1, ?w1) = Inr (s2, w2)"
      and r: "on_render3d draw tw th inp (s2, w2) = Inr (s', w')"
    by (auto simp: tick3d_awake and_then_eq_Inr)
  have on2: "saver_on s2"
    using on_render3d_keeps(1) [OF r] assms(3) by simp
  have idle: "t_now inp - last_activity ?s1 > IDLE_SEC_3d"
    using on_idle3d_saver_on_iff [OF _ i] assms(1) on2 by simp
  have s2: "saved s2 = Some (padded (content (fb w)))" "content (fb w2) = content (fb w)"
    using i idle assms(1) by (auto simp: on_idle3d_fires split: if_splits)
  show "saved s' = Some (padded (content (fb w)))"
    using on_render3d_keeps(2) [OF r] s2 by simp
  show "length (content (fb w')) = length (content (fb w))"
    using on_render3d_keeps(5) [OF r] s2 by simp
  show "drop FRAME_BYTES (content (fb w')) = drop FRAME_BYTES (content (fb w))"
    using on_render3d_tail [OF r] s2 by simp
qed

lemma fb_store_padded:
  assumes "FRAME_BYTES \<le> length c0" and "length c = length c0"
    and "drop FRAME_BYTES c = drop FRAME_BYTES c0"
  shows "fb_store (padded c0) c = c0"
  using assms by (simp add: fb_store_def padded_def)

subsection \<open>Concrete iterations\<close>

lemma quiet_in_fields:
  "arrivals (quiet_in t) = []" "\<not> dev_gone (quiet_in t)" "t_now (quiet_in t) = t"
  "t_act (quiet_in t) = t" "\<not> restore_fails (quiet_in t)" "\<not> capture_fails (quiet_in t)"
  "\<not> render_fails (quiet_in t)"
  by (simp_all add: quiet_in_def)

lemma touch_in_fields:
  "arrivals (touch_in t) = [ev_touch, ev_syn]" "\<not> dev_gone (touch_in t)" "t_now (touch_in t) = t"
  "t_act (touch_in t) = t" "\<not> restore_fails (touch_in t)" "\<not> capture_fails (touch_in t)"
  "\<not> render_fails (touch_in t)"
  by (simp_all add: touch_in_def quiet_in_def)

lemma not_touched_empty:
  "pending (dev w) = [] \<Longrightarrow> \<not> touched (quiet_in t) w"
  by (simp add: touched_iff quiet_in_fields)

lemma touched_empty:
  "pending (dev w) = [] \<Longrightarrow> 0 < read_max (dev w) \<Longrightarrow> touched (touch_in t) w"
  by (cases "read_max (dev w)") (simp_all add: touched_iff touch_in_fields ev_touch_def EV_KEY_def)

lemma tick_first: "tick3d draw_grey 300 100 (quiet_in 601) (init3d 0 0, world0) = Inr (s_first, w_first)"
proof -
  let ?s0 = "\<lparr>last_activity = 0, saver_on = False, saved = None, next_frame = 0,
      pos_x = 40, pos_y = 80, vel_x = 26 / 10, vel_y = 19 / 10, t0 = 0\<rparr> :: saver3d"
  let ?s1 = "\<lparr>last_activity = 0, saver_on = True, saved = Some desk, next_frame = 0,
      pos_x = 40, pos_y = 80, vel_x = 26 / 10, vel_y = 19 / 10, t0 = 601\<rparr> :: saver3d"
  let ?w1 = "\<lparr>fb = \<lparr>content = desk, oplog = [FbRead]\<rparr>,
             dev = \<lparr>pending = [], read_max = 64\<rparr>\<rparr>"
  have 1: "on_touch3d (quiet_in 601) (init3d 0 0, world0) = Inr (?s0, world0)"
    using on_touch3d_quiet [OF not_touched_quiet_in(1), of 601 "init3d 0 0"]
    by (simp add: init3d_def world0_def touch_event_available_eq poll_dev_def quiet_in_fields)
  have 2: "on_idle3d (quiet_in 601) (?s0, world0) = Inr (?s1, ?w1)"
    by (simp add: on_idle3d_fires quiet_in_fields IDLE_SEC_3d_def padded_full length_desk
        world0_def)
  have 3: "on_render3d draw_grey 300 100 (quiet_in 601) (?s1, ?w1) = Inr (s_first, w_first)"
    by (simp add: on_render3d_def quiet_in_fields bounce_def margin_def EXTRUDE_def W_def H_def
        draw_grey_frame fb_write_ok length_grey_frame fb_store_full length_desk
        FPS_3d_def Let_def s_first_def w_first_def)
  show ?thesis
    by (simp only: tick3d_def 1 2 3 and_then_def sum.case)
qed

lemma tick_second: "tick3d draw_grey 300 100 (quiet_in 602) (s_first, w_first) = Inr (s_second, w_second)"
proof -
  have q: "\<not> touched (quiet_in 602) w_first"
    by (rule not_touched_empty) (simp add: w_first_def)
  have on: "saver_on s_first"
    by (simp add: s_first_def)
  have d: "w_first\<lparr>dev := snd (touch_event_available (dev_gone (quiet_in 602))
      (poll_dev (quiet_in 602) w_first))\<rparr> = w_first"
    by (simp add: w_first_def touch_event_available_eq poll_dev_def quiet_in_fields)
  have "on_render3d draw_grey 300 100 (quiet_in 602) (s_first, w_first) = Inr (s_second, w_second)"
    by (simp add: on_render3d_def quiet_in_fields bounce_def margin_def EXTRUDE_def W_def H_def
        draw_grey_frame fb_write_ok length_grey_frame fb_store_full
        FPS_3d_def Let_def s_first_def w_first_def s_second_def w_second_def)
  then show ?thesis
    by (simp add: tick3d_quiet_on [OF q on] d)
qed

lemma length_new_particles: "length (fst (new_particles hostname n g)) = n"
  by (induction n arbitrary: g) (simp_all add: split_beta)

lemma tick_touch_awake:
  "tick3d draw_grey 300 100 (touch_in 700) (s_first, w_first) = Inr (s_awake, w_awake)"
proof -
  have t: "touched (touch_in 700) w_first"
    by (rule touched_empty) (simp_all add: w_first_def)
  have "on_touch3d (touch_in 700) (s_first, w_first) = Inr (s_awake, w_awake)"
    using on_touch3d_touched [OF t, of s_first]
    by (simp add: s_first_def w_first_def s_awake_def w_awake_def touch_in_fields fb_write_ok
        length_desk length_grey_frame fb_store_full touch_event_available_eq poll_dev_def)
  then show ?thesis
    using tick3d_touched [OF t, of draw_grey 300 100 s_first]
    by (simp add: touch_in_fields IDLE_SEC_3d_def)
qed

lemma tick_again:
  "tick3d draw_grey 300 100 (quiet_in 1301) (s_awake, w_awake) = Inr (s_again, w_again)"
proof -
  have q: "\<not> touched (quiet_in 1301) w_awake"
    by (rule not_touched_empty) (simp add: w_awake_def)
  let ?s1 = "\<lparr>last_activity = 700, saver_on = True, saved = Some desk, next_frame = 0,
      pos_x = 426 / 10, pos_y = 819 / 10, vel_x = 26 / 10, vel_y = 19 / 10, t0 = 1301\<rparr> :: saver3d"
  let ?w1 = "\<lparr>fb = \<lparr>content = desk, oplog = [FbRead, FbWrite grey_frame, FbWrite desk, FbRead]\<rparr>,
             dev = \<lparr>pending = [], read_max = 64\<rparr>\<rparr>"
  have 1: "on_touch3d (quiet_in 1301) (s_awake, w_awake) = Inr (s_awake, w_awake)"
    using on_touch3d_quiet [OF q, of s_awake]
    by (simp add: w_awake_def touch_event_available_eq poll_dev_def quiet_in_fields)
  have 2: "on_idle3d (quiet_in 1301) (s_awake, w_awake) = Inr (?s1, ?w1)"
    by (simp add: on_idle3d_fires quiet_in_fields IDLE_SEC_3d_def padded_full length_desk
        s_awake_def w_awake_def)
  have 3: "on_render3d draw_grey 300 100 (quiet_in 1301) (?s1, ?w1) = Inr (s_again, w_again)"
    by (simp add: on_render3d_def quiet_in_fields bounce_def margin_def EXTRUDE_def W_def H_def
        draw_grey_frame fb_write_ok length_grey_frame fb_store_full length_desk
        FPS_3d_def Let_def s_again_def w_again_def)
  show ?thesis
    by (simp only: tick3d_def 1 2 3 and_then_def sum.case)
qed

subsection \<open>The particle and the hostname script\<close>

lemma on_render_float_off:
  "\<not> saver_on s \<Longrightarrow> on_render_float hostname draw inp (s, w, g) = Inr (s, w, g)"
  by (simp add: on_render_float_def Let_def)

lemma on_render_float_cases:
  assumes "on_render_float hostname draw inp (s, w, g) = Inr (s', w', g')"
  shows "(s' = s \<and> w' = w \<and> g' = g)
    \<or> (\<exists>ps frame f'. fb_write (render_fails inp) frame (fb w) = (Inr (), f')
          \<and> s' = s\<lparr>last_t := t_now inp, particles := ps,
                     next_frame := t_now inp + 1 / max FPS_float 1\<rparr>
          \<and> w' = w\<lparr>fb := f'\<rparr>)"
  using assms
  by (auto simp: on_render_float_def Let_def split: if_splits sum.splits prod.splits)

lemma on_render_float_keeps:
  assumes "on_render_float hostname draw inp (s, w, g) = Inr (s', w', g')"
  shows "saver_on s' = saver_on s" and "saved s' = saved s" and "last_activity s' = last_activity s"
    and "length (content (fb w')) = length (content (fb w))"
    and "drop FRAME_BYTES (content (fb w')) = drop FRAME_BYTES (content (fb w))"
proof -
  from on_render_float_cases [OF assms]
  show "saver_on s' = saver_on s" "saved s' = saved s" "last_activity s' = last_activity s"
    by auto
  from on_render_float_cases [OF assms]
  show "length (content (fb w')) = length (content (fb w))"
  proof
    assume "\<exists>ps frame f'. fb_write (render_fails inp) frame (fb w) = (Inr (), f')
          \<and> s' = s\<lparr>last_t := t_now inp, particles := ps,
                     next_frame := t_now inp + 1 / max FPS_float 1\<rparr>
          \<and> w' = w\<lparr>fb := f'\<rparr>"
    then obtain frame f' where "fb_write (render_fails inp) frame (fb w) = (Inr (), f')"
        and "w' = w\<lparr>fb := f'\<rparr>"
      by blast
    then show ?thesis
      using fb_write_content_length [of "render_fails inp" frame "fb w"] by simp
  qed simp
  from on_render_float_cases [OF assms]
  show "drop FRAME_BYTES (content (fb w')) = drop FRAME_BYTES (content (fb w))"
  proof
    assume "\<exists>ps frame f'. fb_write (render_fails inp) frame (fb w) = (Inr (), f')
          \<and> s' = s\<lparr>last_t := t_now inp, particles := ps,
                     next_frame := t_now inp + 1 / max FPS_float 1\<rparr>
          \<and> w' = w\<lparr>fb := f'\<rparr>"
    then obtain frame f' where "fb_write (render_fails inp) frame (fb w) = (Inr (), f')"
        and "w' = w\<lparr>fb := f'\<rparr>"
      by blast
    then show ?thesis
      using fb_write_tail [of "render_fails inp" frame "fb w"] by simp
  qed simp
qed

lemma fb_write_host_keeps:
  assumes "fb_write_host fails buf d = (Inr u, d')" and "length buf = FRAME_BYTES"
  shows "length (content d') = length (content d)"
    and "drop FRAME_BYTES (content d') = drop FRAME_BYTES (content d)"
  using assms
  by (cases "FRAME_BYTES \<le> length (content d)";
      auto simp: fb_write_host_def fb_store_def min_def split: if_splits)+

lemma length_rgb888_to_rgb565:
  assumes "rgb888_to_rgb565 img = Inr frame"
  shows "length frame = FRAME_BYTES"
proof (cases "W \<le> img_w img \<and> H \<le> img_h img")
  case True
  with assms have "frame = frame_bytes img"
    by (simp add: rgb888_to_rgb565_frame)
  then show ?thesis
    by (simp add: length_frame_bytes)
next
  case False
  have row: "convert_row img y xs (out, i) = Inr (out', i') \<Longrightarrow> length out' = length out"
    for y xs out i out' i'
    by (induction xs arbitrary: out i)
      (auto simp: put_pixel_def Let_def split: sum.splits if_splits)
  have rows: "convert_rows img w ys (out, i) = Inr (out', i') \<Longrightarrow> length out' = length out"
    for w ys out i out' i'
  proof (induction ys arbitrary: out i)
    case Nil
    then show ?case by simp
  next
    case (Cons y ys)
    then show ?case
      by (auto split: sum.splits dest: row)
  qed
  from assms show ?thesis
    by (auto simp: rgb888_to_rgb565_def split: sum.splits prod.splits dest: rows)
qed

lemma on_render_host_cases:
  assumes "on_render_host draw tw th inp (s, w, g) = Inr (s', w', g')"
  shows "(s' = s \<and> w' = w \<and> g' = g)
    \<or> (\<exists>frame f' u. fb_write_host (render_fails inp) frame (fb w) = (Inr u, f')
          \<and> length frame = FRAME_BYTES
          \<and> s' = s\<lparr>next_draw := t_now inp + INTERVAL\<rparr> \<and> w' = w\<lparr>fb := f'\<rparr>)"
proof (cases "saver_on s \<and> t_now inp \<ge> next_draw s")
  case False
  with assms show ?thesis
    by (auto simp: on_render_host_def Let_def)
next
  case True
  with assms obtain x y frame f' u where
    c: "rgb888_to_rgb565 (draw x y) = Inr frame"
    and wr: "fb_write_host (render_fails inp) frame (fb w) = (Inr u, f')"
    and r: "s' = s\<lparr>next_draw := t_now inp + INTERVAL\<rparr>" "w' = w\<lparr>fb := f'\<rparr>"
    by (auto simp: on_render_host_def Let_def split: sum.splits prod.splits)
  from length_rgb888_to_rgb565 [OF c] wr r show ?thesis
    by blast
qed

lemma on_render_host_world:
  assumes "on_render_host draw tw th inp (s, w, g) = Inr (s', w', g')"
  shows "length (content (fb w')) = length (content (fb w))"
    and "drop FRAME_BYTES (content (fb w')) = drop FRAME_BYTES (content (fb w))"
  using on_render_host_cases [OF assms] fb_write_host_keeps
  by (auto simp del: One_nat_def)

lemma tick_float_awake:
  assumes "\<not> saver_on s"
  shows "tick_float hostname draw inp (s, w, g) =
     and_then (on_idle_float hostname inp
         (s\<lparr>last_activity := (if touched inp w then t_act inp else last_activity s)\<rparr>,
          w\<lparr>dev := snd (touch_event_available (dev_gone inp) (poll_dev inp w))\<rparr>, g))
       (on_render_float hostname draw inp)"
  using assms
  by (cases "touched inp w")
    (simp_all add: tick_float_def on_touch_float_touched on_touch_float_quiet and_then_Inr)

lemma on_idle_float_saver_on_iff:
  assumes "\<not> saver_on s" and "on_idle_float hostname inp (s, w, g) = Inr (s', w', g')"
  shows "saver_on s' \<longleftrightarrow> t_now inp - last_activity s > IDLE_SEC_float"
proof (cases "t_now inp - last_activity s > IDLE_SEC_float")
  case True
  with assms show ?thesis by (auto simp: on_idle_float_fires split: if_splits)
next
  case False
  with assms show ?thesis by (auto simp: on_idle_float_stays)
qed



lemma tick_float_touched:
  assumes "touched inp w" and "t_now inp - t_act inp \<le> IDLE_SEC_float"
  shows "tick_float hostname draw inp (s, w, g) = on_touch_float inp (s, w, g)"
proof -
  obtain s' w' where r: "on_touch_float inp (s, w, g) = Inr (s', w', g)"
      and s': "\<not> saver_on s'" "last_activity s' = t_act inp"
    using assms(1) by (cases "saver_on s") (simp_all add: on_touch_float_touched)
  have "on_idle_float hostname inp (s', w', g) = Inr (s', w', g)"
    using s' assms(2) by (simp add: on_idle_float_stays)
  moreover have "on_render_float hostname draw inp (s', w', g) = Inr (s', w', g)"
    using s' by (simp add: on_render_float_off)
  ultimately show ?thesis
    by (simp add: tick_float_def and_then_def r)
qed

lemma on_touch_host_result:
  assumes "touched_host inp w" and "on_touch_host inp (s, w, g) = Inr (s', w', g')"
  shows "\<not> saver_on s' \<and> last_activity s' = t_act inp \<and> g' = g"
proof (cases "saver_on s")
  case False
  with assms show ?thesis
    by (auto simp: on_touch_host_awake)
next
  case True
  show ?thesis
  proof (cases "saved s")
    case None
    with True assms show ?thesis
      by (auto simp: on_touch_host_def touched_host_def touch_event_available_host_eq Let_def
          split: if_splits)
  next
    case (Some buf)
    with True assms show ?thesis
      by (auto simp: on_touch_host_restore split: if_splits)
  qed
qed

lemma tick_host_touched:
  assumes "touched_host inp w" and "t_now inp - t_act inp \<le> IDLE_SEC_host"
  shows "tick_host draw tw th inp (s, w, g) = on_touch_host inp (s, w, g)"
proof (cases "on_touch_host inp (s, w, g)")
  case (Inl e)
  then show ?thesis by (simp add: tick_host_def and_then_def)
next
  case (Inr r)
  obtain s' w' g' where r: "r = (s', w', g')" by (cases r)
  note k = on_touch_host_result [OF assms(1) Inr [unfolded r]]
  have "on_idle_host inp (s', w', g') = Inr (s', w', g')"
    using k assms(2) by (simp add: on_idle_host_stays)
  moreover have "on_render_host draw tw th inp (s', w', g') = Inr (s', w', g')"
    using k by (simp add: on_render_host_off)
  ultimately show ?thesis
    by (simp add: tick_host_def and_then_def Inr r)
qed

lemma tick_float_quiet_on:
  assumes "\<not> touched inp w" and "saver_on s"
  shows "tick_float hostname draw inp (s, w, g) =
     on_render_float hostname draw inp
       (s, w\<lparr>dev := snd (touch_event_available (dev_gone inp) (poll_dev inp w))\<rparr>, g)"
  using assms
  by (simp add: tick_float_def on_touch_float_quiet on_idle_float_stays and_then_Inr)

lemma tick_float_quiet_on_keeps:
  assumes "\<not> touched inp w" and "saver_on s"
    and "tick_float hostname draw inp (s, w, g) = Inr (s', w', g')"
  shows "saver_on s'" and "saved s' = saved s"
    and "length (content (fb w')) = length (content (fb w))"
    and "drop FRAME_BYTES (content (fb w')) = drop FRAME_BYTES (content (fb w))"
proof -
  let ?w1 = "w\<lparr>dev := snd (touch_event_available (dev_gone inp) (poll_dev inp w))\<rparr>"
  have r: "on_render_float hostname draw inp (s, ?w1, g) = Inr (s', w', g')"
    using assms by (simp add: tick_float_quiet_on)
  show "saver_on s'" using on_render_float_keeps(1) [OF r] assms(2) by simp
  show "saved s' = saved s" using on_render_float_keeps(2) [OF r] by simp
  show "length (content (fb w')) = length (content (fb w))"
    using on_render_float_keeps(4) [OF r] by simp
  show "drop FRAME_BYTES (content (fb w')) = drop FRAME_BYTES (content (fb w))"
    using on_render_float_keeps(5) [OF r] by simp
qed

lemma quiet_run_float_keeps:
  assumes "quiet_run_float hostname draw ins (s, w, g)" and "saver_on s"
    and "run_float hostname draw ins (s, w, g) = Inr (s', w', g')"
  shows "saver_on s' \<and> saved s' = saved s
    \<and> length (content (fb w')) = length (content (fb w))
    \<and> drop FRAME_BYTES (content (fb w')) = drop FRAME_BYTES (content (fb w))"
  using assms
proof (induction ins arbitrary: s w g)
  case Nil
  then show ?case by simp
next
  case (Cons inp ins)
  from Cons.prems(3) obtain s1 w1 g1 where
      t: "tick_float hostname draw inp (s, w, g) = Inr (s1, w1, g1)"
      and r: "run_float hostname draw ins (s1, w1, g1) = Inr (s', w', g')"
    by (auto simp: and_then_eq_Inr)
  from Cons.prems(1) t have q: "\<not> touched inp w"
      and qr: "quiet_run_float hostname draw ins (s1, w1, g1)"
    by simp_all
  note k = tick_float_quiet_on_keeps [OF q Cons.prems(2) t]
  from Cons.IH [OF qr k(1) r] k show ?case by simp
qed

lemma tick_float_capture:
  assumes "\<not> saver_on s" and "tick_float hostname draw inp (s, w, g) = Inr (s', w', g')"
    and "saver_on s'"
  shows "saved s' = Some (padded (content (fb w)))"
    and "length (content (fb w')) = length (content (fb w))"
    and "drop FRAME_BYTES (content (fb w')) = drop FRAME_BYTES (content (fb w))"
proof -
  let ?s1 = "s\<lparr>last_activity := (if touched inp w then t_act inp else last_activity s)\<rparr>"
  let ?w1 = "w\<lparr>dev := snd (touch_event_available (dev_gone inp) (poll_dev inp w))\<rparr>"
  from assms(1,2) obtain s2 w2 g2 where
      i: "on_idle_float hostname inp (?s1, ?w1, g) = Inr (s2, w2, g2)"
      and r: "on_render_float hostname draw inp (s2, w2, g2) = Inr (s', w', g')"
    by (auto simp: tick_float_awake and_then_eq_Inr)
  have on2: "saver_on s2"
    using on_render_float_keeps(1) [OF r] assms(3) by simp
  have idle: "t_now inp - last_activity ?s1 > IDLE_SEC_float"
    using on_idle_float_saver_on_iff [OF _ i] assms(1) on2 by simp
  have s2: "saved s2 = Some (padded (content (fb w)))" "content (fb w2) = content (fb w)"
    using i idle assms(1) by (auto simp: on_idle_float_fires split: if_splits)
  show "saved s' = Some (padded (content (fb w)))"
    using on_render_float_keeps(2) [OF r] s2 by simp
  show "length (content (fb w')) = length (content (fb w))"
    using on_render_float_keeps(4) [OF r] s2 by simp
  show "drop FRAME_BYTES (content (fb w')) = drop FRAME_BYTES (content (fb w))"
    using on_render_float_keeps(5) [OF r] s2 by simp
qed

lemma tick_host_quiet_on:
  assumes "\<not> touched_host inp w" and "saver_on s"
  shows "tick_host draw tw th inp (s, w, g) =
     on_render_host draw tw th inp
       (s, w\<lparr>dev := snd (touch_event_available_host (dev_gone inp) (poll_dev inp w))\<rparr>, g)"
  using assms
  by (simp add: tick_host_def on_touch_host_quiet on_idle_host_stays and_then_Inr)

lemma tick_host_quiet_on_keeps:
  assumes "\<not> touched_host inp w" and "saver_on s"
    and "tick_host draw tw th inp (s, w, g) = Inr (s', w', g')"
  shows "saver_on s'" and "saved s' = saved s"
    and "length (content (fb w')) = length (content (fb w))"
    and "drop FRAME_BYTES (content (fb w')) = drop FRAME_BYTES (content (fb w))"
proof -
  let ?w1 = "w\<lparr>dev := snd (touch_event_available_host (dev_gone inp) (poll_dev inp w))\<rparr>"
  have r: "on_render_host draw tw th inp (s, ?w1, g) = Inr (s', w', g')"
    using assms by (simp add: tick_host_quiet_on)
  show "saver_on s'" using on_render_host_keeps(1) [OF r] assms(2) by simp
  show "saved s' = saved s" using on_render_host_keeps(2) [OF r] by simp
  show "length (content (fb w')) = length (content (fb w))"
    using on_render_host_world(1) [OF r] by simp
  show "drop FRAME_BYTES (content (fb w')) = drop FRAME_BYTES (content (fb w))"
    using on_render_host_world(2) [OF r] by simp
qed

lemma quiet_run_host_keeps:
  assumes "quiet_run_host draw tw th ins (s, w, g)" and "saver_on s"
    and "run_host draw tw th ins (s, w, g) = Inr (s', w', g')"
  shows "saver_on s' \<and> saved s' = saved s
    \<and> length (content (fb w')) = length (content (fb w))
    \<and> drop FRAME_BYTES (content (fb w')) = drop FRAME_BYTES (content (fb w))"
  using assms
proof (induction ins arbitrary: s w g)
  case Nil
  then show ?case by simp
next
  case (Cons inp ins)
  from Cons.prems(3) obtain s1 w1 g1 where
      t: "tick_host draw tw th inp (s, w, g) = Inr (s1, w1, g1)"
      and r: "run_host draw tw th ins (s1, w1, g1) = Inr (s', w', g')"
    by (auto simp: and_then_eq_Inr)
  from Cons.prems(1) t have q: "\<not> touched_host inp w"
      and qr: "quiet_run_host draw tw th ins (s1, w1, g1)"
    by simp_all
  note k = tick_host_quiet_on_keeps [OF q Cons.prems(2) t]
  from Cons.IH [OF qr k(1) r] k show ?case by simp
qed

lemma tick_host_capture:
  assumes "\<not> saver_on s" and "tick_host draw tw th inp (s, w, g) = Inr (s', w', g')"
    and "saver_on s'"
  shows "saved s' = Some (padded (content (fb w)))"
    and "length (content (fb w')) = length (content (fb w))"
    and "drop FRAME_BYTES (content (fb w')) = drop FRAME_BYTES (content (fb w))"
proof -
  let ?s1 = "s\<lparr>last_activity := (if touched_host inp w then t_act inp else last_activity s)\<rparr>"
  let ?w1 = "w\<lparr>dev := snd (touch_event_available_host (dev_gone inp) (poll_dev inp w))\<rparr>"
  from assms(1,2) obtain s2 w2 g2 where
      i: "on_idle_host inp (?s1, ?w1, g) = Inr (s2, w2, g2)"
      and r: "on_render_host draw tw th inp (s2, w2, g2) = Inr (s', w', g')"
    by (auto simp: tick_host_awake and_then_eq_Inr)
  have on2: "saver_on s2"
    using on_render_host_keeps(1) [OF r] assms(3) by simp
  have idle: "t_now inp - last_activity ?s1 > IDLE_SEC_host"
    using on_idle_host_saver_on_iff [OF _ i] assms(1) on2 by simp
  have s2: "saved s2 = Some (padded (content (fb w)))" "content (fb w2) = content (fb w)"
    using i idle assms(1) by (auto simp: on_idle_host_fires split: if_splits)
  show "saved s' = Some (padded (content (fb w)))"
    using on_render_host_keeps(2) [OF r] s2 by simp
  show "length (content (fb w')) = length (content (fb w))"
    using on_render_host_world(1) [OF r] s2 by simp
  show "drop FRAME_BYTES (content (fb w')) = drop FRAME_BYTES (content (fb w))"
    using on_render_host_world(2) [OF r] s2 by simp
qed

text \<open>The three scripts' round trips, each from a capture to the next touch.\<close>

lemma round_trip_3d:
  assumes "\<not> saver_on s0" and "tick3d draw tw th inp0 (s0, w0) = Inr (s1, w1)" and "saver_on s1"
    and "quiet_run3d draw tw th ins (s1, w1)" and "run3d draw tw th ins (s1, w1) = Inr (s2, w2)"
    and "touched inpT w2" and "\<not> restore_fails inpT"
  shows "saved s1 = Some (padded (content (fb w0))) \<and> saver_on s2 \<and> saved s2 = saved s1
    \<and> (\<exists>w3. on_touch3d inpT (s2, w2) =
               Inr (s2\<lparr>last_activity := t_act inpT, saver_on := False, saved := None\<rparr>, w3)
         \<and> oplog (fb w3) = oplog (fb w2) @ [FbWrite (padded (content (fb w0)))]
         \<and> (FRAME_BYTES \<le> length (content (fb w0)) \<longrightarrow> content (fb w3) = content (fb w0)))"
proof -
  let ?F = "padded (content (fb w0))"
  note c = tick3d_capture [OF assms(1,2,3)]
  from quiet_run3d_keeps [OF assms(4) assms(3) assms(5)]
  have k: "saver_on s2" "saved s2 = saved s1"
    "length (content (fb w2)) = length (content (fb w1))"
    "drop FRAME_BYTES (content (fb w2)) = drop FRAME_BYTES (content (fb w1))"
    by simp_all
  let ?w3 = "w2\<lparr>dev := snd (touch_event_available (dev_gone inpT) (poll_dev inpT w2)),
      fb := snd (fb_write False ?F (fb w2))\<rparr>"
  have t: "on_touch3d inpT (s2, w2) =
      Inr (s2\<lparr>last_activity := t_act inpT, saver_on := False, saved := None\<rparr>, ?w3)"
    using assms(6,7) k c(1) by (simp add: on_touch3d_touched)
  have log: "oplog (fb ?w3) = oplog (fb w2) @ [FbWrite ?F]"
    by (simp add: fb_write_ok length_padded)
  have again: "content (fb ?w3) = content (fb w0)" if "FRAME_BYTES \<le> length (content (fb w0))"
    using that k c by (simp add: fb_write_ok length_padded fb_store_padded)
  from c(1) k(1,2) t log again show ?thesis by blast
qed

lemma round_trip_float:
  assumes "\<not> saver_on s0" and "tick_float hostname draw inp0 (s0, w0, g0) = Inr (s1, w1, g1)"
    and "saver_on s1"
    and "quiet_run_float hostname draw ins (s1, w1, g1)"
    and "run_float hostname draw ins (s1, w1, g1) = Inr (s2, w2, g2)"
    and "touched inpT w2" and "\<not> restore_fails inpT"
  shows "saved s1 = Some (padded (content (fb w0))) \<and> saver_on s2 \<and> saved s2 = saved s1
    \<and> (\<exists>w3. on_touch_float inpT (s2, w2, g2) =
               Inr (s2\<lparr>last_activity := t_act inpT, saver_on := False, saved := None,
                        last_t := t_rest inpT, next_frame := 0\<rparr>, w3, g2)
         \<and> oplog (fb w3) = oplog (fb w2) @ [FbWrite (padded (content (fb w0)))]
         \<and> (FRAME_BYTES \<le> length (content (fb w0)) \<longrightarrow> content (fb w3) = content (fb w0)))"
proof -
  let ?F = "padded (content (fb w0))"
  note c = tick_float_capture [OF assms(1,2,3)]
  from quiet_run_float_keeps [OF assms(4) assms(3) assms(5)]
  have k: "saver_on s2" "saved s2 = saved s1"
    "length (content (fb w2)) = length (content (fb w1))"
    "drop FRAME_BYTES (content (fb w2)) = drop FRAME_BYTES (content (fb w1))"
    by simp_all
  let ?w3 = "w2\<lparr>dev := snd (touch_event_available (dev_gone inpT) (poll_dev inpT w2)),
      fb := snd (fb_write False ?F (fb w2))\<rparr>"
  have t: "on_touch_float inpT (s2, w2, g2) =
      Inr (s2\<lparr>last_activity := t_act inpT, saver_on := False, saved := None,
               last_t := t_rest inpT, next_frame := 0\<rparr>, ?w3, g2)"
    using assms(6,7) k c(1) by (simp add: on_touch_float_touched)
  have log: "oplog (fb ?w3) = oplog (fb w2) @ [FbWrite ?F]"
    by (simp add: fb_write_ok length_padded)
  have again: "content (fb ?w3) = content (fb w0)" if "FRAME_BYTES \<le> length (content (fb w0))"
    using that k c by (simp add: fb_write_ok length_padded fb_store_padded)
  from c(1) k(1,2) t log again show ?thesis by blast
qed

lemma round_trip_host:
  assumes "\<not> saver_on s0" and "tick_host draw tw th inp0 (s0, w0, g0) = Inr (s1, w1, g1)"
    and "saver_on s1"
    and "quiet_run_host draw tw th ins (s1, w1, g1)"
    and "run_host draw tw th ins (s1, w1, g1) = Inr (s2, w2, g2)"
    and "touched_host inpT w2" and "\<not> restore_fails inpT"
  shows "saved s1 = Some (padded (content (fb w0))) \<and> saver_on s2 \<and> saved s2 = saved s1
    \<and> (\<exists>w3. on_touch_host inpT (s2, w2, g2) =
               Inr (s2\<lparr>last_activity := t_act inpT, saver_on := False, saved := None\<rparr>, w3, g2)
         \<and> oplog (fb w3) = oplog (fb w2) @ [FbWrite (padded (content (fb w0)))]
         \<and> (FRAME_BYTES \<le> length (content (fb w0)) \<longrightarrow> content (fb w3) = content (fb w0)))"
proof -
  let ?F = "padded (content (fb w0))"
  note c = tick_host_capture [OF assms(1,2,3)]
  from quiet_run_host_keeps [OF assms(4) assms(3) assms(5)]
  have k: "saver_on s2" "saved s2 = saved s1"
    "length (content (fb w2)) = length (content (fb w1))"
    "drop FRAME_BYTES (content (fb w2)) = drop FRAME_BYTES (content (fb w1))"
    by simp_all
  let ?w3 = "w2\<lparr>dev := snd (touch_event_available_host (dev_gone inpT) (poll_dev inpT w2)),
      fb := (fb w2)\<lparr>content := fb_store ?F (content (fb w2)),
                     oplog := oplog (fb w2) @ [FbWrite ?F]\<rparr>\<rparr>"
  have t: "on_touch_host inpT (s2, w2, g2) =
      Inr (s2\<lparr>last_activity := t_act inpT, saver_on := False, saved := None\<rparr>, ?w3, g2)"
    using assms(6,7) k c(1) on_touch_host_restore [of inpT w2 s2 ?F g2] by simp
  have log: "oplog (fb ?w3) = oplog (fb w2) @ [FbWrite ?F]"
    by simp
  have again: "content (fb ?w3) = content (fb w0)" if "FRAME_BYTES \<le> length (content (fb w0))"
    using that k c by (simp add: fb_store_padded)
  from c(1) k(1,2) t log again show ?thesis by blast
qed

lemma render_frame_ok:
  assumes "\<forall>ps c. W \<le> img_w (draw ps c) \<and> H \<le> img_h (draw ps c)"
  shows "render_frame hostname draw c ps dt g =
     (Inr (frame_bytes (draw (fst (update_particles hostname dt ps g)) c)),
      update_particles hostname dt ps g)"
  using assms by (simp add: render_frame_def split_beta rgb888_to_rgb565_bytes_frame)

lemma tick_float_enter:
  assumes "\<not> touched inp w" and "\<not> saver_on s"
    and "t_now inp - last_activity s > IDLE_SEC_float"
    and "\<not> capture_fails inp" and "\<not> render_fails inp" and "0 \<le> t_now inp"
    and "\<forall>ps c. W \<le> img_w (draw ps c) \<and> H \<le> img_h (draw ps c)"
  shows "\<exists>s' f' g'. tick_float hostname draw inp (s, w, g) =
       Inr (s', \<lparr>fb = f', dev = snd (touch_event_available (dev_gone inp) (poll_dev inp w))\<rparr>, g')
     \<and> saver_on s' \<and> saved s' = Some (padded (content (fb w)))"
proof -
  let ?d = "snd (touch_event_available (dev_gone inp) (poll_dev inp w))"
  let ?np = "new_particles hostname NUM_PARTICLES g"
  let ?s1 = "s\<lparr>saved := Some (padded (content (fb w))), saver_on := True,
      particles := fst ?np, last_t := t_now inp, next_frame := 0\<rparr>"
  let ?w1 = "w\<lparr>dev := ?d, fb := (fb w)\<lparr>oplog := oplog (fb w) @ [FbRead]\<rparr>\<rparr>"
  have i: "on_idle_float hostname inp (s, w\<lparr>dev := ?d\<rparr>, g) = Inr (?s1, ?w1, snd ?np)"
    using assms(2,3,4) by (simp add: on_idle_float_fires)
  have t: "tick_float hostname draw inp (s, w, g) =
      on_render_float hostname draw inp (?s1, ?w1, snd ?np)"
    using assms(1,2) i by (simp add: tick_float_awake and_then_Inr)
  have "\<exists>s' f' g'. on_render_float hostname draw inp (?s1, ?w1, snd ?np) =
       Inr (s', \<lparr>fb = f', dev = ?d\<rparr>, g')
     \<and> saver_on s' \<and> saved s' = Some (padded (content (fb w)))"
    using assms(5,6)
    by (cases w)
      (simp add: on_render_float_def Let_def render_frame_ok [OF assms(7)] split_beta
        fb_write_ok length_frame_bytes)
  with t show ?thesis by simp
qed

lemma tick_host_enter:
  assumes "\<not> touched_host inp w" and "\<not> saver_on s"
    and "t_now inp - last_activity s > IDLE_SEC_host"
    and "\<not> capture_fails inp" and "\<not> render_fails inp" and "0 \<le> t_now inp"
    and "\<forall>x y. W \<le> img_w (draw x y) \<and> H \<le> img_h (draw x y)"
  shows "\<exists>s' f' g'. tick_host draw tw th inp (s, w, g) =
       Inr (s', \<lparr>fb = f', dev = snd (touch_event_available_host (dev_gone inp) (poll_dev inp w))\<rparr>, g')
     \<and> saver_on s' \<and> saved s' = Some (padded (content (fb w)))"
proof -
  let ?d = "snd (touch_event_available_host (dev_gone inp) (poll_dev inp w))"
  let ?s1 = "s\<lparr>saved := Some (padded (content (fb w))), saver_on := True, next_draw := 0\<rparr>"
  let ?w1 = "w\<lparr>dev := ?d, fb := (fb w)\<lparr>oplog := oplog (fb w) @ [FbRead]\<rparr>\<rparr>"
  have i: "on_idle_host inp (s, w\<lparr>dev := ?d\<rparr>, g) = Inr (?s1, ?w1, g)"
    using assms(2,3,4) by (simp add: on_idle_host_fires)
  have t: "tick_host draw tw th inp (s, w, g) = on_render_host draw tw th inp (?s1, ?w1, g)"
    using assms(1,2) i by (simp add: tick_host_awake and_then_Inr)
  have "\<exists>s' f' g'. on_render_host draw tw th inp (?s1, ?w1, g) =
       Inr (s', \<lparr>fb = f', dev = ?d\<rparr>, g')
     \<and> saver_on s' \<and> saved s' = Some (padded (content (fb w)))"
    using assms(5,6,7)
    by (cases w)
      (simp add: on_render_host_def Let_def split_beta rgb888_to_rgb565_frame
        fb_write_host_def)
  with t show ?thesis by simp
qed

lemma touched_host_empty:
  "pending (dev w) = [] \<Longrightarrow> 0 < read_max (dev w) \<Longrightarrow> touched_host (touch_in t) w"
  by (cases "read_max (dev w)") (simp_all add: touched_host_iff touch_in_fields)

lemma not_touched_host_empty:
  "pending (dev w) = [] \<Longrightarrow> \<not> touched_host (quiet_in t) w"
  by (simp add: touched_host_iff quiet_in_fields)

lemma dev_after_quiet:
  "pending (dev w) = [] \<Longrightarrow>
   snd (touch_event_available (dev_gone (quiet_in t)) (poll_dev (quiet_in t) w)) = dev w"
  "pending (dev w) = [] \<Longrightarrow>
   snd (touch_event_available_host (dev_gone (quiet_in t)) (poll_dev (quiet_in t) w)) = dev w"
  by (simp_all add: touch_event_available_eq touch_event_available_host_eq poll_dev_def
      quiet_in_fields)

section \<open>The claims\<close>

subsection \<open>C1\<close>

text \<open>
  Claim C1. In each of the three scripts: when an iteration takes the engine from Awake into
  the saver, the saved buffer is what \<^verbatim>\<open>fb_read\<close> returned for the framebuffer as it was
  then. Through any run of iterations without activity the saver stays on and the saved
  buffer is the same. At the next touch the activity step writes exactly that buffer back
  (the framebuffer log grows by one write of it) and, the device holding at least one frame,
  the framebuffer content is again byte for byte what it was before the capture. Directly on
  the device: reading a frame and writing the result back leaves the content as it was.
\<close>

theorem restore_round_trip:
  "(\<not> saver_on s0 \<and> tick3d draw tw th inp0 (s0, w0) = Inr (s1, w1) \<and> saver_on s1
      \<and> quiet_run3d draw tw th ins (s1, w1) \<and> run3d draw tw th ins (s1, w1) = Inr (s2, w2)
      \<and> touched inpT w2 \<and> \<not> restore_fails inpT \<longrightarrow>
    saved s1 = Some (padded (content (fb w0))) \<and> saver_on s2 \<and> saved s2 = saved s1
    \<and> (\<exists>w3. on_touch3d inpT (s2, w2) =
               Inr (s2\<lparr>last_activity := t_act inpT, saver_on := False, saved := None\<rparr>, w3)
         \<and> oplog (fb w3) = oplog (fb w2) @ [FbWrite (padded (content (fb w0)))]
         \<and> (FRAME_BYTES \<le> length (content (fb w0)) \<longrightarrow> content (fb w3) = content (fb w0))))
   \<and> (\<not> saver_on sf0 \<and> tick_float hostname drawf inp0 (sf0, w0, g0) = Inr (sf1, wf1, g1)
      \<and> saver_on sf1 \<and> quiet_run_float hostname drawf ins (sf1, wf1, g1)
      \<and> run_float hostname drawf ins (sf1, wf1, g1) = Inr (sf2, wf2, g2)
      \<and> touched inpT wf2 \<and> \<not> restore_fails inpT \<longrightarrow>
    saved sf1 = Some (padded (content (fb w0))) \<and> saver_on sf2 \<and> saved sf2 = saved sf1
    \<and> (\<exists>w3. on_touch_float inpT (sf2, wf2, g2) =
               Inr (sf2\<lparr>last_activity := t_act inpT, saver_on := False, saved := None,
                        last_t := t_rest inpT, next_frame := 0\<rparr>, w3, g2)
         \<and> oplog (fb w3) = oplog (fb wf2) @ [FbWrite (padded (content (fb w0)))]
         \<and> (FRAME_BYTES \<le> length (content (fb w0)) \<longrightarrow> content (fb w3) = content (fb w0))))
   \<and> (\<not> saver_on sh0 \<and> tick_host drawh twh thh inp0 (sh0, w0, g0) = Inr (sh1, wh1, h1)
      \<and> saver_on sh1 \<and> quiet_run_host drawh twh thh ins (sh1, wh1, h1)
      \<and> run_host drawh twh thh ins (sh1, wh1, h1) = Inr (sh2, wh2, h2)
      \<and> touched_host inpT wh2 \<and> \<not> restore_fails inpT \<longrightarrow>
    saved sh1 = Some (padded (content (fb w0))) \<and> saver_on sh2 \<and> saved sh2 = saved sh1
    \<and> (\<exists>w3. on_touch_host inpT (sh2, wh2, h2) =
               Inr (sh2\<lparr>last_activity := t_act inpT, saver_on := False, saved := None\<rparr>, w3, h2)
         \<and> oplog (fb w3) = oplog (fb wh2) @ [FbWrite (padded (content (fb w0)))]
         \<and> (FRAME_BYTES \<le> length (content (fb w0)) \<longrightarrow> content (fb w3) = content (fb w0))))
   \<and> (FRAME_BYTES \<le> length (content d) \<longrightarrow>
        content (snd (fb_write False (padded (content d)) (snd (fb_read False d)))) = content d
        \<and> content (snd (fb_write_host False (padded (content d)) (snd (fb_read False d))))
            = content d)"
proof (intro conjI)
  show "\<not> saver_on s0 \<and> tick3d draw tw th inp0 (s0, w0) = Inr (s1, w1) \<and> saver_on s1
      \<and> quiet_run3d draw tw th ins (s1, w1) \<and> run3d draw tw th ins (s1, w1) = Inr (s2, w2)
      \<and> touched inpT w2 \<and> \<not> restore_fails inpT \<longrightarrow>
    saved s1 = Some (padded (content (fb w0))) \<and> saver_on s2 \<and> saved s2 = saved s1
    \<and> (\<exists>w3. on_touch3d inpT (s2, w2) =
               Inr (s2\<lparr>last_activity := t_act inpT, saver_on := False, saved := None\<rparr>, w3)
         \<and> oplog (fb w3) = oplog (fb w2) @ [FbWrite (padded (content (fb w0)))]
         \<and> (FRAME_BYTES \<le> length (content (fb w0)) \<longrightarrow> content (fb w3) = content (fb w0)))"
    using round_trip_3d [of s0 draw tw th inp0 w0 s1 w1 ins s2 w2 inpT] by blast
  show "\<not> saver_on sf0 \<and> tick_float hostname drawf inp0 (sf0, w0, g0) = Inr (sf1, wf1, g1)
      \<and> saver_on sf1 \<and> quiet_run_float hostname drawf ins (sf1, wf1, g1)
      \<and> run_float hostname drawf ins (sf1, wf1, g1) = Inr (sf2, wf2, g2)
      \<and> touched inpT wf2 \<and> \<not> restore_fails inpT \<longrightarrow>
    saved sf1 = Some (padded (content (fb w0))) \<and> saver_on sf2 \<and> saved sf2 = saved sf1
    \<and> (\<exists>w3. on_touch_float inpT (sf2, wf2, g2) =
               Inr (sf2\<lparr>last_activity := t_act inpT, saver_on := False, saved := None,
                        last_t := t_rest inpT, next_frame := 0\<rparr>, w3, g2)
         \<and> oplog (fb w3) = oplog (fb wf2) @ [FbWrite (padded (content (fb w0)))]
         \<and> (FRAME_BYTES \<le> length (content (fb w0)) \<longrightarrow> content (fb w3) = content (fb w0)))"
    using round_trip_float [of sf0 hostname drawf inp0 w0 g0 sf1 wf1 g1 ins sf2 wf2 g2 inpT]
    by blast
  show "\<not> saver_on sh0 \<and> tick_host drawh twh thh inp0 (sh0, w0, g0) = Inr (sh1, wh1, h1)
      \<and> saver_on sh1 \<and> quiet_run_host drawh twh thh ins (sh1, wh1, h1)
      \<and> run_host drawh twh thh ins (sh1, wh1, h1) = Inr (sh2, wh2, h2)
      \<and> touched_host inpT wh2 \<and> \<not> restore_fails inpT \<longrightarrow>
    saved sh1 = Some (padded (content (fb w0))) \<and> saver_on sh2 \<and> saved sh2 = saved sh1
    \<and> (\<exists>w3. on_touch_host inpT (sh2, wh2, h2) =
               Inr (sh2\<lparr>last_activity := t_act inpT, saver_on := False, saved := None\<rparr>, w3, h2)
         \<and> oplog (fb w3) = oplog (fb wh2) @ [FbWrite (padded (content (fb w0)))]
         \<and> (FRAME_BYTES \<le> length (content (fb w0)) \<longrightarrow> content (fb w3) = content (fb w0)))"
    using round_trip_host [of sh0 drawh twh thh inp0 w0 g0 sh1 wh1 h1 ins sh2 wh2 h2 inpT]
    by blast
  show "FRAME_BYTES \<le> length (content d) \<longrightarrow>
        content (snd (fb_write False (padded (content d)) (snd (fb_read False d)))) = content d
        \<and> content (snd (fb_write_host False (padded (content d)) (snd (fb_read False d))))
            = content d"
    by (simp add: fb_read_ok fb_write_ok fb_write_host_def length_padded fb_store_padded)
qed

theorem restore_round_trip_witness:
  "saved s_first = Some desk \<and> saver_on s_second \<and> saved s_second = Some desk
   \<and> (\<exists>w3. on_touch3d (touch_in 700) (s_second, w_second) =
              Inr (s_second\<lparr>last_activity := 700, saver_on := False, saved := None\<rparr>, w3)
         \<and> oplog (fb w3) = [FbRead, FbWrite grey_frame, FbWrite grey_frame, FbWrite desk]
         \<and> content (fb w3) = desk)
   \<and> (\<exists>s1 w1 g1 w3. tick_float ''pi'' draw_grey_float (quiet_in 11) (float_awake, world0, rng0)
              = Inr (s1, w1, g1)
         \<and> saver_on s1 \<and> saved s1 = Some desk
         \<and> on_touch_float (touch_in 20) (s1, w1, g1) =
              Inr (s1\<lparr>last_activity := 20, saver_on := False, saved := None,
                      last_t := 20, next_frame := 0\<rparr>, w3, g1)
         \<and> oplog (fb w3) = oplog (fb w1) @ [FbWrite desk] \<and> content (fb w3) = desk)
   \<and> (\<exists>s1 w1 g1 w3. tick_host draw_grey_host 100 30 (quiet_in 11) (init_host 0, world0, rng0)
              = Inr (s1, w1, g1)
         \<and> saver_on s1 \<and> saved s1 = Some desk
         \<and> on_touch_host (touch_in 20) (s1, w1, g1) =
              Inr (s1\<lparr>last_activity := 20, saver_on := False, saved := None\<rparr>, w3, g1)
         \<and> oplog (fb w3) = oplog (fb w1) @ [FbWrite desk] \<and> content (fb w3) = desk)
   \<and> content (snd (fb_write False desk (snd (fb_read False (fb world0))))) = desk
   \<and> content (snd (fb_write_host False desk (snd (fb_read False (fb world0))))) = desk"
proof -
  have c: "content (fb world0) = desk" "padded desk = desk" "FRAME_BYTES \<le> length desk"
    "pending (dev world0) = []" "read_max (dev world0) = 64"
    by (simp_all add: world0_def padded_full length_desk)
  have inp: "t_act (touch_in t) = t" "t_rest (touch_in t) = t" "\<not> restore_fails (touch_in t)"
    "t_now (quiet_in t) = t" "\<not> capture_fails (quiet_in t)" "\<not> render_fails (quiet_in t)" for t
    by (simp_all add: touch_in_def quiet_in_def)

  \<comment> \<open>the 3D-text script: capture at 601, one more frame at 602, touch at 700\<close>
  have h1: "\<not> saver_on (init3d 0 0)"
    by (simp add: init3d_def)
  have h3: "saver_on s_first"
    by (simp add: s_first_def)
  have q: "\<not> touched (quiet_in 602) w_first"
    by (rule not_touched_empty) (simp add: w_first_def)
  have h4: "quiet_run3d draw_grey 300 100 [quiet_in 602] (s_first, w_first)"
    using q by (simp add: tick_second)
  have h5: "run3d draw_grey 300 100 [quiet_in 602] (s_first, w_first) = Inr (s_second, w_second)"
    by (simp add: tick_second and_then_def)
  have h6: "touched (touch_in 700) w_second"
    by (rule touched_empty) (simp_all add: w_second_def)
  have l: "oplog (fb w_second) = [FbRead, FbWrite grey_frame, FbWrite grey_frame]"
    by (simp add: w_second_def)
  have part3d: "saved s_first = Some desk \<and> saver_on s_second \<and> saved s_second = Some desk
   \<and> (\<exists>w3. on_touch3d (touch_in 700) (s_second, w_second) =
              Inr (s_second\<lparr>last_activity := 700, saver_on := False, saved := None\<rparr>, w3)
         \<and> oplog (fb w3) = [FbRead, FbWrite grey_frame, FbWrite grey_frame, FbWrite desk]
         \<and> content (fb w3) = desk)"
    using restore_round_trip [where ?s0.0 = "init3d 0 0" and draw = draw_grey and tw = 300
        and th = 100 and ?inp0.0 = "quiet_in 601" and ?w0.0 = world0 and ?s1.0 = s_first
        and ?w1.0 = w_first and ins = "[quiet_in 602]" and ?s2.0 = s_second and ?w2.0 = w_second
        and inpT = "touch_in 700"]
      h1 tick_first h3 h4 h5 h6
    by (simp add: c inp l)

  \<comment> \<open>the particle script: capture at 11, touch at 20\<close>
  have "\<not> touched (quiet_in 11) world0"
    by (rule not_touched_quiet_in)
  moreover have "\<not> saver_on float_awake" "t_now (quiet_in 11) - last_activity float_awake > IDLE_SEC_float"
    by (simp_all add: float_awake_def inp IDLE_SEC_float_def)
  moreover have "\<forall>ps c. W \<le> img_w (draw_grey_float ps c) \<and> H \<le> img_h (draw_grey_float ps c)"
    by (simp add: draw_grey_float_def flat_image_def)
  ultimately obtain sf1 ff1 gf1 where
    tf: "tick_float ''pi'' draw_grey_float (quiet_in 11) (float_awake, world0, rng0) =
        Inr (sf1, \<lparr>fb = ff1, dev = dev world0\<rparr>, gf1)"
    and onf: "saver_on sf1" and vf: "saved sf1 = Some desk"
    using tick_float_enter [of "quiet_in 11" world0 float_awake draw_grey_float "''pi''" rng0]
    by (auto simp: inp c dev_after_quiet)
  let ?wf1 = "\<lparr>fb = ff1, dev = dev world0\<rparr>"
  have tchf: "touched (touch_in 20) ?wf1"
    by (rule touched_empty) (simp_all add: c)
  have partf: "\<exists>w3. on_touch_float (touch_in 20) (sf1, ?wf1, gf1) =
              Inr (sf1\<lparr>last_activity := 20, saver_on := False, saved := None,
                      last_t := 20, next_frame := 0\<rparr>, w3, gf1)
         \<and> oplog (fb w3) = oplog (fb ?wf1) @ [FbWrite desk] \<and> content (fb w3) = desk"
    using restore_round_trip [where ?sf0.0 = float_awake and hostname = "''pi''"
        and drawf = draw_grey_float and ?inp0.0 = "quiet_in 11" and ?w0.0 = world0
        and ?g0.0 = rng0 and ?sf1.0 = sf1 and ?wf1.0 = ?wf1 and ?g1.0 = gf1 and ins = "[]"
        and ?sf2.0 = sf1 and ?wf2.0 = ?wf1 and ?g2.0 = gf1 and inpT = "touch_in 20"]
      tf onf tchf
    by (simp add: c inp float_awake_def)

  \<comment> \<open>the hostname script: capture at 11, touch at 20\<close>
  have "\<not> touched_host (quiet_in 11) world0"
    by (rule not_touched_quiet_in)
  moreover have "\<not> saver_on (init_host 0)" "t_now (quiet_in 11) - last_activity (init_host 0) > IDLE_SEC_host"
    by (simp_all add: init_host_def inp IDLE_SEC_host_def)
  moreover have "\<forall>x y. W \<le> img_w (draw_grey_host x y) \<and> H \<le> img_h (draw_grey_host x y)"
    by (simp add: draw_grey_host_def flat_image_def)
  ultimately obtain sh1 fh1 gh1 where
    tkh: "tick_host draw_grey_host 100 30 (quiet_in 11) (init_host 0, world0, rng0) =
        Inr (sh1, \<lparr>fb = fh1, dev = dev world0\<rparr>, gh1)"
    and onh: "saver_on sh1" and vh: "saved sh1 = Some desk"
    using tick_host_enter [of "quiet_in 11" world0 "init_host 0" draw_grey_host 100 30 rng0]
    by (auto simp: inp c dev_after_quiet)
  let ?wh1 = "\<lparr>fb = fh1, dev = dev world0\<rparr>"
  have tchh: "touched_host (touch_in 20) ?wh1"
    by (rule touched_host_empty) (simp_all add: c)
  have parth: "\<exists>w3. on_touch_host (touch_in 20) (sh1, ?wh1, gh1) =
              Inr (sh1\<lparr>last_activity := 20, saver_on := False, saved := None\<rparr>, w3, gh1)
         \<and> oplog (fb w3) = oplog (fb ?wh1) @ [FbWrite desk] \<and> content (fb w3) = desk"
    using restore_round_trip [where ?sh0.0 = "init_host 0" and drawh = draw_grey_host
        and twh = 100 and thh = 30 and ?inp0.0 = "quiet_in 11" and ?w0.0 = world0
        and ?g0.0 = rng0 and ?sh1.0 = sh1 and ?wh1.0 = ?wh1 and ?h1.0 = gh1 and ins = "[]"
        and ?sh2.0 = sh1 and ?wh2.0 = ?wh1 and ?h2.0 = gh1 and inpT = "touch_in 20"]
      tkh onh tchh
    by (simp add: c inp init_host_def)

  have direct: "content (snd (fb_write False desk (snd (fb_read False (fb world0))))) = desk
   \<and> content (snd (fb_write_host False desk (snd (fb_read False (fb world0))))) = desk"
    using restore_round_trip [where d = "fb world0"] by (simp add: c)
  from part3d partf parth tf onf vf tkh onh vh direct show ?thesis
    by blast
qed

subsection \<open>C2\<close>

text \<open>
  Claim C2 (amended). In the 3D-text and the particle script \<^verbatim>\<open>fb_write\<close> called with a
  buffer whose length is not \<open>FRAME_BYTES\<close> raises \<open>ValueError\<close> and leaves the device as it
  was: neither its content nor its log of accesses changes, whether or not the device would
  have failed. The hostname script's \<^verbatim>\<open>fb_write\<close> has no length check: on a working
  device it writes any buffer as given, from offset 0.
\<close>

theorem fb_write_size_enforced:
  "(length buf \<noteq> FRAME_BYTES \<longrightarrow> fb_write fails buf d = (Inl ValueError, d))
   \<and> fb_write_host False buf d =
       (Inr (), d\<lparr>content := fb_store buf (content d), oplog := oplog d @ [FbWrite buf]\<rparr>)"
  by (simp add: fb_write_def fb_write_host_def)

theorem fb_write_size_enforced_witness:
  "fb_write False [1, 2, 3] \<lparr>content = [9, 9, 9, 9], oplog = []\<rparr>
     = (Inl ValueError, \<lparr>content = [9, 9, 9, 9], oplog = []\<rparr>)
   \<and> fb_write_host False [1, 2, 3] \<lparr>content = [9, 9, 9, 9], oplog = []\<rparr>
     = (Inr (), \<lparr>content = [1, 2, 3, 9], oplog = [FbWrite [1, 2, 3]]\<rparr>)"
  using fb_write_size_enforced [of "[1, 2, 3]" False "\<lparr>content = [9, 9, 9, 9], oplog = []\<rparr>"]
  by (simp add: FRAME_BYTES_def W_def H_def BPP_def fb_store_def)

theorem fb_write_host_unchecked:
  "length [1, 2, 3 :: byte] \<noteq> FRAME_BYTES
   \<and> fb_write_host False [1, 2, 3] \<lparr>content = [9, 9, 9, 9], oplog = []\<rparr>
     = (Inr (), \<lparr>content = [1, 2, 3, 9], oplog = [FbWrite [1, 2, 3]]\<rparr>)"
  by (simp add: fb_write_host_def FRAME_BYTES_def W_def H_def BPP_def fb_store_def)

subsection \<open>C3\<close>

text \<open>
  Claim C3 (amended). In the 3D-text and the particle script a touch while the saver is on
  ends in the Awake state whatever the restore write did: the activity step returns
  normally with \<open>saver_on\<close> false and the saved frame dropped, and when the write failed the
  framebuffer content is what it was; no exception leaves the activity step of these two
  scripts. In the hostname script the restore is an unguarded \<^verbatim>\<open>fb_write(saved)\<close>: when
  that write fails the error leaves the loop and the iteration ends with \<open>OSError\<close>.
\<close>

theorem restore_error_swallowed:
  "(touched inp w \<and> saver_on s \<longrightarrow>
      (\<exists>w'. on_touch3d inp (s, w) =
               Inr (s\<lparr>last_activity := t_act inp, saver_on := False, saved := None\<rparr>, w')
           \<and> (restore_fails inp \<longrightarrow> content (fb w') = content (fb w))))
   \<and> (touched inp w \<and> saver_on sf \<longrightarrow>
      (\<exists>w'. on_touch_float inp (sf, w, g) =
               Inr (sf\<lparr>last_activity := t_act inp, saver_on := False, saved := None,
                        last_t := t_rest inp, next_frame := 0\<rparr>, w', g)
           \<and> (restore_fails inp \<longrightarrow> content (fb w') = content (fb w))))
   \<and> (\<forall>e. on_touch3d inp (s, w) \<noteq> Inl e)
   \<and> (\<forall>e. on_touch_float inp (sf, w, g) \<noteq> Inl e)
   \<and> (touched_host inp w \<and> saver_on sh \<and> saved sh = Some buf \<and> restore_fails inp \<longrightarrow>
        on_touch_host inp (sh, w, g) = Inl OSError
        \<and> tick_host draw tw th inp (sh, w, g) = Inl OSError)"
proof (intro conjI impI allI)
  assume a: "touched inp w \<and> saver_on s"
  have "restore_fails inp \<Longrightarrow>
      content (case saved s of None \<Rightarrow> fb w
               | Some buf \<Rightarrow> snd (fb_write (restore_fails inp) buf (fb w))) = content (fb w)"
    by (simp add: fb_write_def split: option.splits)
  with a show "\<exists>w'. on_touch3d inp (s, w) =
               Inr (s\<lparr>last_activity := t_act inp, saver_on := False, saved := None\<rparr>, w')
           \<and> (restore_fails inp \<longrightarrow> content (fb w') = content (fb w))"
    by (simp add: on_touch3d_touched)
next
  assume a: "touched inp w \<and> saver_on sf"
  have "restore_fails inp \<Longrightarrow>
      content (case saved sf of None \<Rightarrow> fb w
               | Some buf \<Rightarrow> snd (fb_write (restore_fails inp) buf (fb w))) = content (fb w)"
    by (simp add: fb_write_def split: option.splits)
  with a show "\<exists>w'. on_touch_float inp (sf, w, g) =
               Inr (sf\<lparr>last_activity := t_act inp, saver_on := False, saved := None,
                        last_t := t_rest inp, next_frame := 0\<rparr>, w', g)
           \<and> (restore_fails inp \<longrightarrow> content (fb w') = content (fb w))"
    by (simp add: on_touch_float_touched)
next
  fix e show "on_touch3d inp (s, w) \<noteq> Inl e"
    by (cases "touched inp w") (simp_all add: on_touch3d_touched on_touch3d_quiet)
next
  fix e show "on_touch_float inp (sf, w, g) \<noteq> Inl e"
    by (cases "touched inp w") (simp_all add: on_touch_float_touched on_touch_float_quiet)
next
  assume a: "touched_host inp w \<and> saver_on sh \<and> saved sh = Some buf \<and> restore_fails inp"
  then show "on_touch_host inp (sh, w, g) = Inl OSError"
    by (simp add: on_touch_host_restore)
  then show "tick_host draw tw th inp (sh, w, g) = Inl OSError"
    by (simp add: tick_host_def and_then_def)
qed

theorem restore_error_swallowed_witness:
  "(\<exists>w'. on_touch3d (touch_fail_in 700) (on3d, world0) =
            Inr (on3d\<lparr>last_activity := 700, saver_on := False, saved := None\<rparr>, w')
         \<and> content (fb w') = desk)
   \<and> (\<exists>w'. on_touch_float (touch_fail_in 700) (on_float, world0, rng0) =
            Inr (on_float\<lparr>last_activity := 700, saver_on := False, saved := None,
                           last_t := 700, next_frame := 0\<rparr>, w', rng0)
         \<and> content (fb w') = desk)
   \<and> on_touch_host (touch_fail_in 700) (on_host, world0, rng0) = Inl OSError
   \<and> tick_host draw_grey_host 100 30 (touch_fail_in 700) (on_host, world0, rng0) = Inl OSError"
proof -
  have on: "saver_on on3d" "saver_on on_float" "saver_on on_host" "saved on_host = Some desk"
    by (simp_all add: on3d_def on_float_def on_host_def)
  have inp: "restore_fails (touch_fail_in 700)" "t_act (touch_fail_in 700) = 700"
    "t_rest (touch_fail_in 700) = 700"
    by (simp_all add: touch_fail_in_def touch_in_def quiet_in_def)
  have w: "content (fb world0) = desk"
    by (simp add: world0_def)
  from restore_error_swallowed [of "touch_fail_in 700" world0 on3d on_float rng0 on_host desk
      draw_grey_host 100 30]
  show ?thesis
    by (simp add: touched_touch_in on inp w)
qed

theorem restore_error_escapes_host:
  "touched_host (touch_fail_in 700) world0 \<and> saver_on on_host
   \<and> restore_fails (touch_fail_in 700)
   \<and> on_touch_host (touch_fail_in 700) (on_host, world0, rng0) = Inl OSError
   \<and> tick_host draw_grey_host 100 30 (touch_fail_in 700) (on_host, world0, rng0) = Inl OSError"
proof -
  have on: "saver_on on_host" "saved on_host = Some desk"
    by (simp_all add: on_host_def)
  have inp: "restore_fails (touch_fail_in 700)"
    by (simp add: touch_fail_in_def touch_in_def quiet_in_def)
  have "on_touch_host (touch_fail_in 700) (on_host, world0, rng0) = Inl OSError"
    using on inp by (simp add: on_touch_host_restore touched_touch_in)
  then show ?thesis
    by (simp add: touched_touch_in on inp tick_host_def and_then_def)
qed

subsection \<open>C4\<close>

text \<open>
  Claim C4 (amended). Every call makes one \<^verbatim>\<open>dev.read()\<close> and the batch that read
  returns is off the queue afterwards, also when the loop returns at its first event; when
  the pending events fit into one read, nothing stays queued. In the 3D-text and the
  particle script the result is true exactly when the batch holds an event of type key,
  absolute or relative; in the hostname script it is true exactly when the batch is not
  empty, whatever the type of its events. A failing or empty read gives false and no
  exception leaves the function.
\<close>

theorem touch_event_available_contract:
  "touch_event_available gone d =
     (Inr (\<not> gone \<and> (\<exists>ev \<in> set (take (read_max d) (pending d)).
              ev_type ev = EV_KEY \<or> ev_type ev = EV_ABS \<or> ev_type ev = EV_REL)),
      if gone then d else d\<lparr>pending := drop (read_max d) (pending d)\<rparr>)
   \<and> touch_event_available_host gone d =
     (Inr (\<not> gone \<and> take (read_max d) (pending d) \<noteq> []),
      if gone then d else d\<lparr>pending := drop (read_max d) (pending d)\<rparr>)
   \<and> (\<not> gone \<and> length (pending d) \<le> read_max d \<longrightarrow>
        pending (snd (touch_event_available gone d)) = []
        \<and> pending (snd (touch_event_available_host gone d)) = [])"
  by (simp add: touch_event_available_eq touch_event_available_host_eq scan_events_iff
      scan_events_host_iff)

theorem touch_event_available_contract_witness:
  "touch_event_available False \<lparr>pending = [ev_syn, ev_touch, ev_syn], read_max = 64\<rparr>
     = (Inr True, \<lparr>pending = [], read_max = 64\<rparr>)
   \<and> touch_event_available_host False \<lparr>pending = [ev_syn, ev_touch, ev_syn], read_max = 64\<rparr>
     = (Inr True, \<lparr>pending = [], read_max = 64\<rparr>)
   \<and> pending (snd (touch_event_available False
         \<lparr>pending = [ev_syn, ev_touch, ev_syn], read_max = 64\<rparr>)) = []
   \<and> pending (snd (touch_event_available_host False
         \<lparr>pending = [ev_syn, ev_touch, ev_syn], read_max = 64\<rparr>)) = []"
  using touch_event_available_contract
    [of False "\<lparr>pending = [ev_syn, ev_touch, ev_syn], read_max = 64\<rparr>"]
  by (simp add: ev_syn_def ev_touch_def EV_SYN_def EV_KEY_def EV_ABS_def EV_REL_def)

theorem touch_event_available_host_any_event:
  "ev_type ev_syn \<noteq> EV_KEY \<and> ev_type ev_syn \<noteq> EV_ABS \<and> ev_type ev_syn \<noteq> EV_REL
   \<and> touch_event_available_host False \<lparr>pending = [ev_syn], read_max = 64\<rparr>
     = (Inr True, \<lparr>pending = [], read_max = 64\<rparr>)
   \<and> touch_event_available False \<lparr>pending = [ev_syn], read_max = 64\<rparr>
     = (Inr False, \<lparr>pending = [], read_max = 64\<rparr>)"
  by (simp add: touch_event_available_host_def touch_event_available_def dev_read_def
      ev_syn_def EV_SYN_def EV_KEY_def EV_ABS_def EV_REL_def)

subsection \<open>C5\<close>

text \<open>
  Claim C5 (amended). In the particle script every entry into the saver replaces the
  particle list by freshly drawn particles and resets the frame clock: the capture step's
  result does not depend on the particles, \<open>last_t\<close> or \<open>next_frame\<close> it started with. In the
  3D-text script an entry resets only the animation clock \<open>t0\<close> (the rotation phase) and the
  frame pacing; position and velocity of the text are kept, so a new session continues the
  motion where the previous one stopped.
\<close>

theorem scene_state_on_entry:
  "(\<not> saver_on sf \<and> t_now inp - last_activity sf > IDLE_SEC_float \<and> \<not> capture_fails inp \<longrightarrow>
      (\<exists>s' w'. on_idle_float hostname inp (sf, w, g) =
                  Inr (s', w', snd (new_particles hostname NUM_PARTICLES g))
         \<and> saver_on s' \<and> particles s' = fst (new_particles hostname NUM_PARTICLES g)
         \<and> length (particles s') = NUM_PARTICLES
         \<and> last_t s' = t_now inp \<and> next_frame s' = 0)
      \<and> on_idle_float hostname inp (sf\<lparr>particles := ps, last_t := lt, next_frame := nf\<rparr>, w, g)
          = on_idle_float hostname inp (sf, w, g))
   \<and> (\<not> saver_on s \<and> t_now inp - last_activity s > IDLE_SEC_3d \<and> \<not> capture_fails inp \<longrightarrow>
      (\<exists>s' w'. on_idle3d inp (s, w) = Inr (s', w') \<and> saver_on s'
         \<and> t0 s' = t_now inp \<and> next_frame s' = 0
         \<and> pos_x s' = pos_x s \<and> pos_y s' = pos_y s \<and> vel_x s' = vel_x s \<and> vel_y s' = vel_y s))"
  by (simp add: on_idle_float_fires on_idle3d_fires length_new_particles)

theorem scene_state_on_entry_witness:
  "(\<exists>s' w'. on_idle_float ''pi'' (quiet_in 11) (float_awake, world0, rng0) =
              Inr (s', w', snd (new_particles ''pi'' NUM_PARTICLES rng0))
        \<and> saver_on s' \<and> particles s' = fst (new_particles ''pi'' NUM_PARTICLES rng0)
        \<and> length (particles s') = NUM_PARTICLES \<and> last_t s' = 11 \<and> next_frame s' = 0)
   \<and> on_idle_float ''pi'' (quiet_in 11)
        (float_awake\<lparr>particles := [old_particle], last_t := 5, next_frame := 9\<rparr>, world0, rng0)
      = on_idle_float ''pi'' (quiet_in 11) (float_awake, world0, rng0)
   \<and> (\<exists>s' w'. on_idle3d (quiet_in 1301) (s_awake, w_awake) = Inr (s', w') \<and> saver_on s'
        \<and> t0 s' = 1301 \<and> next_frame s' = 0
        \<and> pos_x s' = 426 / 10 \<and> pos_y s' = 819 / 10 \<and> vel_x s' = 26 / 10 \<and> vel_y s' = 19 / 10)"
proof -
  have f: "\<not> saver_on float_awake" "last_activity float_awake = 0"
    by (simp_all add: float_awake_def)
  have s: "\<not> saver_on s_awake" "last_activity s_awake = 700" "pos_x s_awake = 426 / 10"
    "pos_y s_awake = 819 / 10" "vel_x s_awake = 26 / 10" "vel_y s_awake = 19 / 10"
    by (simp_all add: s_awake_def)
  note a = scene_state_on_entry [where sf = float_awake and inp = "quiet_in 11"
      and hostname = "''pi''" and w = world0 and g = rng0 and ps = "[old_particle]"
      and lt = 5 and nf = 9 and s = s_awake]
  note b = scene_state_on_entry [where sf = float_awake and inp = "quiet_in 1301"
      and hostname = "''pi''" and w = w_awake and g = rng0 and ps = "[old_particle]"
      and lt = 5 and nf = 9 and s = s_awake]
  have 1: "(\<exists>s' w'. on_idle_float ''pi'' (quiet_in 11) (float_awake, world0, rng0) =
              Inr (s', w', snd (new_particles ''pi'' NUM_PARTICLES rng0))
        \<and> saver_on s' \<and> particles s' = fst (new_particles ''pi'' NUM_PARTICLES rng0)
        \<and> length (particles s') = NUM_PARTICLES \<and> last_t s' = 11 \<and> next_frame s' = 0)
   \<and> on_idle_float ''pi'' (quiet_in 11)
        (float_awake\<lparr>particles := [old_particle], last_t := 5, next_frame := 9\<rparr>, world0, rng0)
      = on_idle_float ''pi'' (quiet_in 11) (float_awake, world0, rng0)"
    using a by (simp add: f quiet_in_fields IDLE_SEC_float_def)
  have 2: "\<exists>s' w'. on_idle3d (quiet_in 1301) (s_awake, w_awake) = Inr (s', w') \<and> saver_on s'
        \<and> t0 s' = 1301 \<and> next_frame s' = 0
        \<and> pos_x s' = 426 / 10 \<and> pos_y s' = 819 / 10 \<and> vel_x s' = 26 / 10 \<and> vel_y s' = 19 / 10"
    using b by (simp add: s quiet_in_fields IDLE_SEC_3d_def)
  from 1 2 show ?thesis by blast
qed

theorem text_position_carries_over:
  "run3d draw_grey 300 100 [quiet_in 601] (init3d 0 0, world0) = Inr (s_first, w_first)
   \<and> pos_x s_first = 426 / 10 \<and> pos_y s_first = 819 / 10
   \<and> run3d draw_grey 300 100 [quiet_in 601, touch_in 700] (init3d 0 0, world0)
       = Inr (s_awake, w_awake)
   \<and> \<not> saver_on s_awake
   \<and> run3d draw_grey 300 100 [quiet_in 601, touch_in 700, quiet_in 1301] (init3d 0 0, world0)
       = Inr (s_again, w_again)
   \<and> saver_on s_again \<and> pos_x s_again = 452 / 10 \<and> pos_y s_again = 838 / 10
   \<and> pos_x s_again \<noteq> pos_x s_first \<and> pos_y s_again \<noteq> pos_y s_first"
proof -
  have runs: "run3d draw_grey 300 100 [quiet_in 601] (init3d 0 0, world0) = Inr (s_first, w_first)"
    "run3d draw_grey 300 100 [quiet_in 601, touch_in 700] (init3d 0 0, world0)
       = Inr (s_awake, w_awake)"
    "run3d draw_grey 300 100 [quiet_in 601, touch_in 700, quiet_in 1301] (init3d 0 0, world0)
       = Inr (s_again, w_again)"
    by (simp_all add: tick_first tick_touch_awake tick_again and_then_def)
  have vals: "pos_x s_first = 426 / 10" "pos_y s_first = 819 / 10" "\<not> saver_on s_awake"
    "saver_on s_again" "pos_x s_again = 452 / 10" "pos_y s_again = 838 / 10"
    by (simp_all add: s_first_def s_awake_def s_again_def)
  from runs vals show ?thesis by simp
qed

subsection \<open>C6\<close>

text \<open>
  Claim C6. A pixel with 8-bit components packs to the 16-bit value that holds the top five
  bits of red, the top six of green and the top five of blue (integer division discards the
  low bits, nothing is rounded), and the two bytes stored for it are the low byte followed
  by the high byte. White packs to \<open>0xFFFF\<close>, black to \<open>0x0000\<close> and \<open>(248, 0, 0)\<close> to \<open>0xF800\<close>. In the
  converter's output for an image that covers the display, the pixel at \<open>(x, y)\<close> occupies
  the bytes \<open>2 * (y * W + x)\<close> (low) and \<open>2 * (y * W + x) + 1\<close> (high).
\<close>

theorem pixel_packing_rgb565:
  fixes r g b :: byte
  shows "pack565 (r, g, b) = 2048 * (uint r div 8) + 32 * (uint g div 4) + uint b div 8
    \<and> pixel_bytes (r, g, b) =
        [word_of_int (pack565 (r, g, b) mod 256), word_of_int (pack565 (r, g, b) div 256)]
    \<and> put_pixel [a0, a1] 0 (r, g, b) =
        Inr [word_of_int (pack565 (r, g, b) mod 256), word_of_int (pack565 (r, g, b) div 256)]
    \<and> pack565 (255, 255, 255) = 0xFFFF \<and> pack565 (0, 0, 0) = 0x0000
    \<and> pack565 (248, 0, 0) = 0xF800 \<and> pixel_bytes (248, 0, 0) = [0x00, 0xF8]
    \<and> (W \<le> img_w img \<and> H \<le> img_h img \<and> x < W \<and> y < H \<longrightarrow>
        (\<exists>out. rgb888_to_rgb565_bytes img = Inr out \<and> length out = FRAME_BYTES
           \<and> out ! (2 * (y * W + x)) = word_of_int (pack565 (img_px img x y) mod 256)
           \<and> out ! (2 * (y * W + x) + 1) = word_of_int (pack565 (img_px img x y) div 256)))"
proof (intro conjI impI)
  show "pack565 (r, g, b) = 2048 * (uint r div 8) + 32 * (uint g div 4) + uint b div 8"
    by (rule pack565_arith)
  show "pixel_bytes (r, g, b) =
        [word_of_int (pack565 (r, g, b) mod 256), word_of_int (pack565 (r, g, b) div 256)]"
    by (rule pixel_bytes_arith)
  show "put_pixel [a0, a1] 0 (r, g, b) =
        Inr [word_of_int (pack565 (r, g, b) mod 256), word_of_int (pack565 (r, g, b) div 256)]"
    using pixel_bytes_arith [of r g b] by (simp add: put_pixel_def Let_def pixel_bytes_def)
  show "pack565 (255, 255, 255) = 0xFFFF" "pack565 (0, 0, 0) = 0x0000" "pack565 (248, 0, 0) = 0xF800"
    by (simp_all add: pack565_def)
  show "pixel_bytes (248, 0, 0) = [0x00, 0xF8]"
    by (simp add: pixel_bytes_def pack565_def)
next
  assume a: "W \<le> img_w img \<and> H \<le> img_h img \<and> x < W \<and> y < H"
  obtain r' g' b' where p: "img_px img x y = (r', g', b')"
    by (cases "img_px img x y")
  have lo: "frame_bytes img ! (2 * (y * W + x)) = pixel_bytes (img_px img x y) ! 0"
    using a frame_bytes_nth [of x y 0 img] by simp
  have hi: "frame_bytes img ! (2 * (y * W + x) + 1) = pixel_bytes (img_px img x y) ! 1"
    using a frame_bytes_nth [of x y 1 img] by simp
  show "\<exists>out. rgb888_to_rgb565_bytes img = Inr out \<and> length out = FRAME_BYTES
           \<and> out ! (2 * (y * W + x)) = word_of_int (pack565 (img_px img x y) mod 256)
           \<and> out ! (2 * (y * W + x) + 1) = word_of_int (pack565 (img_px img x y) div 256)"
    using a lo hi
    by (simp add: rgb888_to_rgb565_bytes_frame length_frame_bytes p pixel_bytes_arith)
qed

theorem pixel_packing_rgb565_witness:
  "pack565 (200, 100, 50) = 2048 * 25 + 32 * 25 + 6
   \<and> pixel_bytes (200, 100, 50) = [0x26, 0xCB]
   \<and> (\<exists>out. rgb888_to_rgb565_bytes (flat_image (248, 0, 0)) = Inr out \<and> length out = FRAME_BYTES
         \<and> out ! (2 * (7 * W + 5)) = 0x00 \<and> out ! (2 * (7 * W + 5) + 1) = 0xF8)"
proof -
  have dims: "W \<le> img_w (flat_image (248, 0, 0)) \<and> H \<le> img_h (flat_image (248, 0, 0))
      \<and> 5 < W \<and> 7 < H"
    by (simp add: flat_image_def W_def H_def)
  have v: "pack565 (248, 0, 0) = 0xF800"
    by (simp add: pack565_def)
  have px: "img_px (flat_image (248, 0, 0)) 5 7 = (248, 0, 0)"
    by (simp add: flat_image_def)
  from pixel_packing_rgb565 [where r = 200 and g = 100 and b = 50
      and img = "flat_image (248, 0, 0)" and x = 5 and y = 7] dims
  show ?thesis
    by (simp add: px v)
qed

subsection \<open>C7\<close>

text \<open>
  Claim C7 (amended). In an iteration that sees activity, the activity step runs first, and
  provided the clock advances by no more than the idle threshold between the stamp of the
  activity and the reading of \<open>now\<close> in that same iteration, the iteration ends Awake: in
  the 3D-text and the particle script the result is exactly what the activity step leaves
  (saver off, activity stamped, saved frame dropped if the saver was on), with no capture
  and no frame rendered, however long the engine had been idle before. The hostname script
  ends the iteration the same way whenever the iteration returns, and it returns when its
  restore write does not fail.
\<close>

theorem activity_precedence:
  "(touched inp w \<and> t_now inp - t_act inp \<le> IDLE_SEC_3d \<longrightarrow>
     (\<exists>w'. tick3d draw tw th inp (s, w) =
        Inr (if saver_on s
             then s\<lparr>last_activity := t_act inp, saver_on := False, saved := None\<rparr>
             else s\<lparr>last_activity := t_act inp\<rparr>, w')
      \<and> oplog (fb w') =
          (case (saver_on s, saved s) of
             (True, Some buf) \<Rightarrow> oplog (snd (fb_write (restore_fails inp) buf (fb w)))
           | other \<Rightarrow> oplog (fb w))))
   \<and> (touched inp w \<and> t_now inp - t_act inp \<le> IDLE_SEC_float \<longrightarrow>
     (\<exists>w'. tick_float hostname drawf inp (sf, w, g) =
        Inr (if saver_on sf
             then sf\<lparr>last_activity := t_act inp, saver_on := False, saved := None,
                     last_t := t_rest inp, next_frame := 0\<rparr>
             else sf\<lparr>last_activity := t_act inp\<rparr>, w', g)
      \<and> oplog (fb w') =
          (case (saver_on sf, saved sf) of
             (True, Some buf) \<Rightarrow> oplog (snd (fb_write (restore_fails inp) buf (fb w)))
           | other \<Rightarrow> oplog (fb w))))
   \<and> (touched_host inp w \<and> t_now inp - t_act inp \<le> IDLE_SEC_host \<and> \<not> restore_fails inp
        \<and> (saver_on sh \<longrightarrow> saved sh = Some buf) \<longrightarrow>
     (\<exists>w'. tick_host drawh twh thh inp (sh, w, g) =
        Inr (if saver_on sh
             then sh\<lparr>last_activity := t_act inp, saver_on := False, saved := None\<rparr>
             else sh\<lparr>last_activity := t_act inp\<rparr>, w', g)
      \<and> oplog (fb w') =
          (if saver_on sh then oplog (fb w) @ [FbWrite buf] else oplog (fb w))))
   \<and> (\<forall>s' w' g'. touched_host inp w \<and> t_now inp - t_act inp \<le> IDLE_SEC_host
        \<and> tick_host drawh twh thh inp (sh, w, g) = Inr (s', w', g') \<longrightarrow>
        \<not> saver_on s' \<and> last_activity s' = t_act inp)"
proof (intro conjI impI allI)
  assume a: "touched inp w \<and> t_now inp - t_act inp \<le> IDLE_SEC_3d"
  then have t: "tick3d draw tw th inp (s, w) = on_touch3d inp (s, w)"
    by (simp add: tick3d_touched)
  show "\<exists>w'. tick3d draw tw th inp (s, w) =
        Inr (if saver_on s
             then s\<lparr>last_activity := t_act inp, saver_on := False, saved := None\<rparr>
             else s\<lparr>last_activity := t_act inp\<rparr>, w')
      \<and> oplog (fb w') =
          (case (saver_on s, saved s) of
             (True, Some buf) \<Rightarrow> oplog (snd (fb_write (restore_fails inp) buf (fb w)))
           | other \<Rightarrow> oplog (fb w))"
    using a by (auto simp: t on_touch3d_touched split: option.splits)
next
  assume a: "touched inp w \<and> t_now inp - t_act inp \<le> IDLE_SEC_float"
  then have t: "tick_float hostname drawf inp (sf, w, g) = on_touch_float inp (sf, w, g)"
    by (simp add: tick_float_touched)
  show "\<exists>w'. tick_float hostname drawf inp (sf, w, g) =
        Inr (if saver_on sf
             then sf\<lparr>last_activity := t_act inp, saver_on := False, saved := None,
                     last_t := t_rest inp, next_frame := 0\<rparr>
             else sf\<lparr>last_activity := t_act inp\<rparr>, w', g)
      \<and> oplog (fb w') =
          (case (saver_on sf, saved sf) of
             (True, Some buf) \<Rightarrow> oplog (snd (fb_write (restore_fails inp) buf (fb w)))
           | other \<Rightarrow> oplog (fb w))"
    using a by (auto simp: t on_touch_float_touched split: option.splits)
next
  assume a: "touched_host inp w \<and> t_now inp - t_act inp \<le> IDLE_SEC_host \<and> \<not> restore_fails inp
        \<and> (saver_on sh \<longrightarrow> saved sh = Some buf)"
  then have t: "tick_host drawh twh thh inp (sh, w, g) = on_touch_host inp (sh, w, g)"
    by (simp add: tick_host_touched)
  show "\<exists>w'. tick_host drawh twh thh inp (sh, w, g) =
        Inr (if saver_on sh
             then sh\<lparr>last_activity := t_act inp, saver_on := False, saved := None\<rparr>
             else sh\<lparr>last_activity := t_act inp\<rparr>, w', g)
      \<and> oplog (fb w') =
          (if saver_on sh then oplog (fb w) @ [FbWrite buf] else oplog (fb w))"
    using a by (cases "saver_on sh") (simp_all add: t on_touch_host_restore on_touch_host_awake)
next
  fix s' w' g'
  assume a: "touched_host inp w \<and> t_now inp - t_act inp \<le> IDLE_SEC_host
        \<and> tick_host drawh twh thh inp (sh, w, g) = Inr (s', w', g')"
  then have "on_touch_host inp (sh, w, g) = Inr (s', w', g')"
    using tick_host_touched [of inp w drawh twh thh sh g] by simp
  with a on_touch_host_result [of inp w sh g s' w' g']
  show "\<not> saver_on s'" "last_activity s' = t_act inp"
    by simp_all
qed

theorem activity_precedence_witness:
  "touched (touch_in 700) world0 \<and> saver_on on3d
   \<and> t_now (touch_in 700) - last_activity on3d > IDLE_SEC_3d
   \<and> (\<exists>w'. tick3d draw_grey 300 100 (touch_in 700) (on3d, world0) =
              Inr (on3d\<lparr>last_activity := 700, saver_on := False, saved := None\<rparr>, w')
          \<and> oplog (fb w') = [FbWrite desk])
   \<and> (\<exists>w'. tick_float ''pi'' draw_grey_float (touch_in 700) (on_float, world0, rng0) =
              Inr (on_float\<lparr>last_activity := 700, saver_on := False, saved := None,
                             last_t := 700, next_frame := 0\<rparr>, w', rng0)
          \<and> oplog (fb w') = [FbWrite desk])
   \<and> (\<exists>w'. tick_host draw_grey_host 100 30 (touch_in 700) (on_host, world0, rng0) =
              Inr (on_host\<lparr>last_activity := 700, saver_on := False, saved := None\<rparr>, w', rng0)
          \<and> oplog (fb w') = [FbWrite desk])"
proof -
  have inp: "t_now (touch_in 700) = 700" "t_act (touch_in 700) = 700"
    "t_rest (touch_in 700) = 700" "\<not> restore_fails (touch_in 700)"
    by (simp_all add: touch_in_def quiet_in_def)
  have s: "saver_on on3d" "saved on3d = Some desk" "last_activity on3d = 0"
    "saver_on on_float" "saved on_float = Some desk"
    "saver_on on_host" "saved on_host = Some desk"
    by (simp_all add: on3d_def init3d_def on_float_def on_host_def init_host_def)
  have w: "oplog (fb world0) = []"
    by (simp add: world0_def)
  from activity_precedence [where inp = "touch_in 700" and w = world0 and draw = draw_grey
      and tw = 300 and th = 100 and s = on3d and hostname = "''pi''" and drawf = draw_grey_float
      and sf = on_float and g = rng0 and sh = on_host and buf = desk and drawh = draw_grey_host
      and twh = 100 and thh = 30]
  show ?thesis
    by (simp add: touched_touch_in inp s w IDLE_SEC_3d_def IDLE_SEC_float_def IDLE_SEC_host_def
        fb_write_ok length_desk)
qed

theorem stalled_touch_reenters_saver:
  "touched stall_in world0 \<and> saver_on on3d
   \<and> t_now stall_in - last_activity on3d > IDLE_SEC_3d
   \<and> tick3d draw_grey 300 100 stall_in (on3d, world0) =
       Inr (\<lparr>last_activity = 1000, saver_on = True, saved = Some desk,
             next_frame = 1700 + 1 / 20,
             pos_x = 426 / 10, pos_y = 819 / 10, vel_x = 26 / 10, vel_y = 19 / 10, t0 = 1700\<rparr>,
            \<lparr>fb = \<lparr>content = grey_frame, oplog = [FbWrite desk, FbRead, FbWrite grey_frame]\<rparr>,
             dev = \<lparr>pending = [], read_max = 64\<rparr>\<rparr>)"
proof -
  have inp: "t_now stall_in = 1700" "t_act stall_in = 1000" "\<not> restore_fails stall_in"
    "\<not> capture_fails stall_in" "\<not> render_fails stall_in" "\<not> dev_gone stall_in"
    "arrivals stall_in = [ev_touch, ev_syn]"
    by (simp_all add: stall_in_def touch_in_def quiet_in_def)
  let ?s1 = "\<lparr>last_activity = 1000, saver_on = False, saved = None, next_frame = 0,
      pos_x = 40, pos_y = 80, vel_x = 26 / 10, vel_y = 19 / 10, t0 = 0\<rparr> :: saver3d"
  let ?w1 = "\<lparr>fb = \<lparr>content = desk, oplog = [FbWrite desk]\<rparr>,
             dev = \<lparr>pending = [], read_max = 64\<rparr>\<rparr>"
  have 1: "on_touch3d stall_in (on3d, world0) = Inr (?s1, ?w1)"
    using on_touch3d_touched [OF touched_stall_in, of on3d]
    by (simp add: inp on3d_def init3d_def world0_def fb_write_ok length_desk fb_store_full
        touch_event_available_eq poll_dev_def)
  let ?s2 = "\<lparr>last_activity = 1000, saver_on = True, saved = Some desk, next_frame = 0,
      pos_x = 40, pos_y = 80, vel_x = 26 / 10, vel_y = 19 / 10, t0 = 1700\<rparr> :: saver3d"
  let ?w2 = "\<lparr>fb = \<lparr>content = desk, oplog = [FbWrite desk, FbRead]\<rparr>,
             dev = \<lparr>pending = [], read_max = 64\<rparr>\<rparr>"
  have 2: "on_idle3d stall_in (?s1, ?w1) = Inr (?s2, ?w2)"
    by (simp add: on_idle3d_fires inp IDLE_SEC_3d_def padded_full length_desk)
  let ?s3 = "\<lparr>last_activity = 1000, saver_on = True, saved = Some desk,
      next_frame = 1700 + 1 / 20,
      pos_x = 426 / 10, pos_y = 819 / 10, vel_x = 26 / 10, vel_y = 19 / 10, t0 = 1700\<rparr> :: saver3d"
  let ?w3 = "\<lparr>fb = \<lparr>content = grey_frame, oplog = [FbWrite desk, FbRead, FbWrite grey_frame]\<rparr>,
            dev = \<lparr>pending = [], read_max = 64\<rparr>\<rparr>"
  have 3: "on_render3d draw_grey 300 100 stall_in (?s2, ?w2) = Inr (?s3, ?w3)"
    by (simp add: on_render3d_def inp bounce_def margin_def EXTRUDE_def W_def H_def
        draw_grey_frame fb_write_ok length_grey_frame fb_store_full length_desk
        FPS_3d_def Let_def)
  have "tick3d draw_grey 300 100 stall_in (on3d, world0) = Inr (?s3, ?w3)"
    by (simp only: tick3d_def 1 2 3 and_then_def sum.case)
  then show ?thesis
    by (simp add: touched_stall_in inp IDLE_SEC_3d_def on3d_def init3d_def)
qed

subsection \<open>C8\<close>



subsection \<open>C9\<close>



subsection \<open>C10\<close>

text \<open>
  Claim C10. Two images of the display's size whose pixels agree after masking with
  \<open>(0xF8, 0xFC, 0xF8)\<close> are converted to the same bytes, by the converter of the 3D-text and
  particle scripts and by the one of the hostname script; the conversion succeeds, so the
  equality is one of frames and not of errors. The low three bits of red and blue and the
  low two bits of green therefore reach no output byte.
\<close>

theorem converter_ignores_low_bits:
  assumes "img_w a = W" and "img_h a = H" and "img_w b = W" and "img_h b = H"
    and "\<forall>x<W. \<forall>y<H. mask888 (img_px a x y) = mask888 (img_px b x y)"
  shows "rgb888_to_rgb565_bytes a = rgb888_to_rgb565_bytes b
    \<and> rgb888_to_rgb565 a = rgb888_to_rgb565 b
    \<and> (\<exists>out. rgb888_to_rgb565_bytes a = Inr out \<and> rgb888_to_rgb565 a = Inr out
          \<and> length out = FRAME_BYTES)"
  using assms frame_bytes_cong [of a b]
  by (simp add: rgb888_to_rgb565_bytes_frame rgb888_to_rgb565_frame length_frame_bytes)

theorem converter_ignores_low_bits_witness:
  "rgb888_to_rgb565_bytes (flat_image (255, 255, 255)) = rgb888_to_rgb565_bytes (flat_image (248, 254, 249))
   \<and> rgb888_to_rgb565 (flat_image (255, 255, 255)) = rgb888_to_rgb565 (flat_image (248, 254, 249))
   \<and> (\<exists>out. rgb888_to_rgb565_bytes (flat_image (255, 255, 255)) = Inr out
         \<and> rgb888_to_rgb565 (flat_image (255, 255, 255)) = Inr out \<and> length out = FRAME_BYTES)"
proof -
  have m: "\<forall>x<W. \<forall>y<H. mask888 (img_px (flat_image (255, 255, 255)) x y)
      = mask888 (img_px (flat_image (248, 254, 249)) x y)"
    by (simp add: flat_image_def mask888_def)
  show ?thesis
    by (rule converter_ignores_low_bits [OF _ _ _ _ m]) (simp_all add: flat_image_def)
qed


end
